theory Spec2Isabelle
  imports Complex_Main "HOL-Library.Word" "HOL-Library.Multiset"
begin

section \<open>JavaScript values used by the aggregation code of \<open>App.tsx\<close>\<close>

subsection \<open>Numbers\<close>

text \<open>
  A JavaScript number is an IEEE double. The model keeps NaN and the two infinities and
  takes every finite value as an exact rational. Not modelled: the rounding of
  quotients and of integers beyond \<open>2^53\<close>, the overflow of a finite result to an
  infinity (a score of more than 308 digits), and the sign of zero (no divisor in the
  modelled code is a negative zero).
\<close>

datatype jsnum = NaN | PosInf | NegInf | Fin rat

fun js_neg :: "jsnum \<Rightarrow> jsnum" where
  "js_neg NaN = NaN"
| "js_neg PosInf = NegInf"
| "js_neg NegInf = PosInf"
| "js_neg (Fin a) = Fin (- a)"

fun js_add :: "jsnum \<Rightarrow> jsnum \<Rightarrow> jsnum" where
  "js_add (Fin a) (Fin b) = Fin (a + b)"
| "js_add NaN y = NaN"
| "js_add x NaN = NaN"
| "js_add PosInf NegInf = NaN"
| "js_add NegInf PosInf = NaN"
| "js_add PosInf y = PosInf"
| "js_add NegInf y = NegInf"
| "js_add (Fin a) y = y"

definition js_sub :: "jsnum \<Rightarrow> jsnum \<Rightarrow> jsnum" where
  "js_sub x y = js_add x (js_neg y)"

text \<open>The sign of a number that is not NaN: \<open>-1\<close>, \<open>0\<close> or \<open>1\<close>.\<close>

fun js_sign :: "jsnum \<Rightarrow> rat" where
  "js_sign NaN = 0"
| "js_sign PosInf = 1"
| "js_sign NegInf = - 1"
| "js_sign (Fin a) = sgn a"

fun js_mul :: "jsnum \<Rightarrow> jsnum \<Rightarrow> jsnum" where
  "js_mul (Fin a) (Fin b) = Fin (a * b)"
| "js_mul NaN y = NaN"
| "js_mul x NaN = NaN"
| "js_mul x y =
     (if js_sign x * js_sign y = 0 then NaN
      else if js_sign x * js_sign y > 0 then PosInf else NegInf)"

fun js_div :: "jsnum \<Rightarrow> jsnum \<Rightarrow> jsnum" where
  "js_div (Fin a) (Fin b) =
     (if b = 0 then (if a = 0 then NaN else if a > 0 then PosInf else NegInf)
      else Fin (a / b))"
| "js_div NaN y = NaN"
| "js_div x NaN = NaN"
| "js_div (Fin a) y = Fin 0"
| "js_div x (Fin b) = (if js_sign x * (if b < 0 then - 1 else 1) > 0 then PosInf else NegInf)"
| "js_div x y = NaN"

text \<open>The relational operators \<open><\<close>, \<open>>\<close> and \<open>===\<close> on numbers: false whenever NaN is involved.\<close>

fun js_lt :: "jsnum \<Rightarrow> jsnum \<Rightarrow> bool" where
  "js_lt (Fin a) (Fin b) = (a < b)"
| "js_lt NaN y = False"
| "js_lt x NaN = False"
| "js_lt x NegInf = False"
| "js_lt PosInf y = False"
| "js_lt x y = True"

definition js_gt :: "jsnum \<Rightarrow> jsnum \<Rightarrow> bool" where
  "js_gt x y = js_lt y x"

definition js_eq :: "jsnum \<Rightarrow> jsnum \<Rightarrow> bool" where
  "js_eq x y \<longleftrightarrow> x \<noteq> NaN \<and> x = y"

text \<open>Truthiness of a number, and \<open>a || b\<close> on numbers.\<close>

definition truthy :: "jsnum \<Rightarrow> bool" where
  "truthy x \<longleftrightarrow> x \<noteq> NaN \<and> x \<noteq> Fin 0"

definition js_or :: "jsnum \<Rightarrow> jsnum \<Rightarrow> jsnum" where
  "js_or a b = (if truthy a then a else b)"

subsection \<open>Strings\<close>

text \<open>
  A JavaScript string is a sequence of UTF-16 code units. The en dash that separates
  the two halves of a score is the single code unit \<open>U+2013\<close>.
\<close>

type_synonym char16 = "16 word"
type_synonym jsstring = "char16 list"

definition ascii :: "string \<Rightarrow> jsstring" where
  "ascii s = map of_char s"

definition en_dash :: char16 where
  "en_dash = 0x2013"

text \<open>
  \<open>s.split(sep)\<close> for a separator of one code unit: the pieces between the occurrences
  of the separator, in order; the empty string gives one empty piece.
\<close>

fun js_split :: "char16 \<Rightarrow> jsstring \<Rightarrow> jsstring list" where
  "js_split sep [] = [[]]"
| "js_split sep (c # cs) =
     (if c = sep then [] # js_split sep cs
      else (case js_split sep cs of [] \<Rightarrow> [[c]] | p # ps \<Rightarrow> (c # p) # ps))"

text \<open>\<open>parts[i]\<close>: reading past the end of an array gives \<open>undefined\<close>, here \<open>None\<close>.\<close>

definition js_index :: "'a list \<Rightarrow> nat \<Rightarrow> 'a option" where
  "js_index xs i = (if i < length xs then Some (xs ! i) else None)"

text \<open>\<open>ToString\<close> of a value that is a string or \<open>undefined\<close>.\<close>

definition to_string :: "jsstring option \<Rightarrow> jsstring" where
  "to_string v = (case v of None \<Rightarrow> ascii ''undefined'' | Some s \<Rightarrow> s)"

text \<open>
  \<open>parseInt(v, 10)\<close>: leading white space and line terminators are skipped, one sign is
  read, then the longest run of decimal digits; with no digit the result is NaN.
\<close>

definition is_white_space :: "char16 \<Rightarrow> bool" where
  "is_white_space c \<longleftrightarrow>
     c \<in> set [0x9, 0xA, 0xB, 0xC, 0xD, 0x20, 0xA0, 0x1680, 0x2028, 0x2029, 0x202F,
              0x205F, 0x3000, 0xFEFF]
     \<or> (0x2000 \<le> c \<and> c \<le> 0x200A)"

definition is_digit :: "char16 \<Rightarrow> bool" where
  "is_digit c \<longleftrightarrow> 0x30 \<le> c \<and> c \<le> 0x39"

definition digit_value :: "char16 \<Rightarrow> int" where
  "digit_value c = int (unat c) - 48"

definition digits_value :: "jsstring \<Rightarrow> int" where
  "digits_value z = foldl (\<lambda>n c. 10 * n + digit_value c) 0 z"

definition parseInt :: "jsstring option \<Rightarrow> jsnum" where
  "parseInt v =
     (let s = dropWhile is_white_space (to_string v);
          sign = (if s \<noteq> [] \<and> hd s = 0x2D then - 1 else 1);
          s' = (if s \<noteq> [] \<and> (hd s = 0x2B \<or> hd s = 0x2D) then tl s else s);
          z = takeWhile is_digit s'
      in if z = [] then NaN else Fin (of_int (sign * digits_value z)))"

section \<open>The data model\<close>

record MatchData =
  Wk :: jsnum
  Day :: jsstring
  Date :: jsstring
  Time :: jsstring
  Home :: jsstring
  xG :: jsnum
  Score :: jsstring
  xG_away :: jsnum
  Away :: jsstring
  Attendance :: jsstring
  Venue :: jsstring
  Referee :: jsstring

section \<open>Score Parser\<close>

record ParsedScore =
  homeGoals :: jsnum
  awayGoals :: jsnum

definition parseScore :: "jsstring \<Rightarrow> ParsedScore" where
  "parseScore score =
     (let parts = js_split en_dash score
      in \<lparr>homeGoals = js_or (parseInt (js_index parts 0)) (Fin 0),
          awayGoals = js_or (parseInt (js_index parts 1)) (Fin 0)\<rparr>)"

section \<open>Arrays and maps\<close>

text \<open>
  \<open>xs.sort(cmp)\<close>: the sort of ECMAScript is stable, and for a consistent comparator its
  result is the one stable arrangement, which insertion from the right computes. An
  element moves behind another only where the comparator is positive; a NaN from the
  comparator counts as zero. For an inconsistent comparator ECMAScript leaves the order
  to the implementation (the result is still a rearrangement of the input).
\<close>

fun js_insert :: "('a \<Rightarrow> 'a \<Rightarrow> jsnum) \<Rightarrow> 'a \<Rightarrow> 'a list \<Rightarrow> 'a list" where
  "js_insert cmp x [] = [x]"
| "js_insert cmp x (y # ys) =
     (if js_gt (cmp x y) (Fin 0) then y # js_insert cmp x ys else x # y # ys)"

fun js_sort :: "('a \<Rightarrow> 'a \<Rightarrow> jsnum) \<Rightarrow> 'a list \<Rightarrow> 'a list" where
  "js_sort cmp [] = []"
| "js_sort cmp (x # xs) = js_insert cmp x (js_sort cmp xs)"

text \<open>
  A \<open>Map\<close> iterates in insertion order, and \<open>set\<close> on a key that is present keeps the
  key's place: an association list with unique keys.
\<close>

type_synonym ('k, 'v) js_map = "('k \<times> 'v) list"

definition map_get :: "('k, 'v) js_map \<Rightarrow> 'k \<Rightarrow> 'v option" where
  "map_get m k = map_of m k"

fun map_set :: "('k, 'v) js_map \<Rightarrow> 'k \<Rightarrow> 'v \<Rightarrow> ('k, 'v) js_map" where
  "map_set [] k v = [(k, v)]"
| "map_set ((k', v') # m) k v =
     (if k' = k then (k, v) # m else (k', v') # map_set m k v)"

section \<open>Team Goal-Rate Aggregator (\<open>teamGoals\<close>)\<close>

record TeamStats =
  st_goals :: jsnum
  st_matches :: jsnum

record TeamGoalRate =
  tg_team :: jsstring
  tg_goalsPerMatch :: jsnum

text \<open>
  One turn of the \<open>forEach\<close> loop. The stats object read from the map is updated and
  stored back under the same key, first for the home team, then for the away team
  (which reads the map the home update has already changed).
\<close>

definition add_match :: "jsnum \<Rightarrow> TeamStats option \<Rightarrow> TeamStats" where
  "add_match g found =
     (let stats = (case found of None \<Rightarrow> \<lparr>st_goals = Fin 0, st_matches = Fin 0\<rparr>
                   | Some s \<Rightarrow> s)
      in \<lparr>st_goals = js_add (st_goals stats) g,
          st_matches = js_add (st_matches stats) (Fin 1)\<rparr>)"

definition teamGoals_step ::
  "(jsstring, TeamStats) js_map \<Rightarrow> MatchData \<Rightarrow> (jsstring, TeamStats) js_map" where
  "teamGoals_step statsByTeam match =
     (let sc = parseScore (Score match);
          homeStats = add_match (homeGoals sc) (map_get statsByTeam (Home match));
          m1 = map_set statsByTeam (Home match) homeStats;
          awayStats = add_match (awayGoals sc) (map_get m1 (Away match))
      in map_set m1 (Away match) awayStats)"

definition statsByTeam :: "MatchData list \<Rightarrow> (jsstring, TeamStats) js_map" where
  "statsByTeam data = foldl teamGoals_step [] data"

definition rate_cmp :: "TeamGoalRate \<Rightarrow> TeamGoalRate \<Rightarrow> jsnum" where
  "rate_cmp a b = js_sub (tg_goalsPerMatch b) (tg_goalsPerMatch a)"

definition teamGoals :: "MatchData list \<Rightarrow> TeamGoalRate list" where
  "teamGoals data =
     js_sort rate_cmp
       (map (\<lambda>(team, stats).
               \<lparr>tg_team = team,
                tg_goalsPerMatch = js_div (st_goals stats) (st_matches stats)\<rparr>)
          (filter (\<lambda>(_, stats). js_gt (st_matches stats) (Fin 0)) (statsByTeam data)))"

section \<open>xG Time Series Builder (\<open>timeseriesData\<close>)\<close>

text \<open>
  \<open>new Date(s).getTime()\<close> is a function of the host, not of this program: every
  definition that reads a date takes it as the parameter \<open>getTime\<close>, a number for each
  date string (NaN for a string that is no date).
\<close>

record XgPoint =
  xp_date :: jsstring
  xp_xG :: jsnum
  xp_xGA :: jsnum
  xp_team :: jsstring
  xp_match :: jsstring
  xp_opponent :: jsstring

definition match_label :: "MatchData \<Rightarrow> jsstring" where
  "match_label d = Home d @ ascii '' vs '' @ Away d"

definition xg_point :: "jsstring \<Rightarrow> MatchData \<Rightarrow> XgPoint" where
  "xg_point selectedTeam d =
     (let isHome = (Home d = selectedTeam);
          isAway = (Away d = selectedTeam)
      in if selectedTeam \<noteq> [] \<and> (isHome \<or> isAway)
         then \<lparr>xp_date = Date d,
               xp_xG = (if isHome then xG d else xG_away d),
               xp_xGA = (if isHome then xG_away d else xG d),
               xp_team = selectedTeam,
               xp_match = match_label d,
               xp_opponent = (if isHome then Away d else Home d)\<rparr>
         else \<lparr>xp_date = Date d,
               xp_xG = xG d,
               xp_xGA = xG_away d,
               xp_team = Home d,
               xp_match = match_label d,
               xp_opponent = Away d\<rparr>)"

definition xg_cmp :: "(jsstring \<Rightarrow> jsnum) \<Rightarrow> XgPoint \<Rightarrow> XgPoint \<Rightarrow> jsnum" where
  "xg_cmp getTime a b = js_sub (getTime (xp_date a)) (getTime (xp_date b))"

definition timeseriesData ::
  "(jsstring \<Rightarrow> jsnum) \<Rightarrow> MatchData list \<Rightarrow> jsstring \<Rightarrow> XgPoint list" where
  "timeseriesData getTime data selectedTeam =
     (let filtered = (if selectedTeam \<noteq> []
                      then filter (\<lambda>d. Home d = selectedTeam \<or> Away d = selectedTeam) data
                      else data)
      in js_sort (xg_cmp getTime) (map (xg_point selectedTeam) filtered))"

section \<open>Outcome Classifier (\<open>matchOutcomes\<close>)\<close>

record OutcomeSummary =
  oc_labels :: "jsstring list"
  oc_values :: "jsnum list"
  oc_percentages :: "jsnum list"
  oc_counts :: "jsnum list"
  oc_total :: jsnum

text \<open>The three counters \<open>(homeWins, awayWins, draws)\<close> after one more match.\<close>

definition classify ::
  "jsnum \<times> jsnum \<times> jsnum \<Rightarrow> MatchData \<Rightarrow> jsnum \<times> jsnum \<times> jsnum" where
  "classify c match =
     (case c of (homeWins, awayWins, draws) \<Rightarrow>
        let sc = parseScore (Score match)
        in if js_gt (homeGoals sc) (awayGoals sc) then (js_add homeWins (Fin 1), awayWins, draws)
           else if js_lt (homeGoals sc) (awayGoals sc) then (homeWins, js_add awayWins (Fin 1), draws)
           else (homeWins, awayWins, js_add draws (Fin 1)))"

definition matchOutcomes :: "MatchData list \<Rightarrow> OutcomeSummary" where
  "matchOutcomes data =
     (case foldl classify (Fin 0, Fin 0, Fin 0) data of (homeWins, awayWins, draws) \<Rightarrow>
        let total = js_add (js_add homeWins awayWins) draws
        in \<lparr>oc_labels = [ascii ''Home Wins'', ascii ''Away Wins'', ascii ''Draws''],
            oc_values = [homeWins, awayWins, draws],
            oc_percentages = [js_mul (js_div homeWins total) (Fin 100),
                              js_mul (js_div awayWins total) (Fin 100),
                              js_mul (js_div draws total) (Fin 100)],
            oc_counts = [homeWins, awayWins, draws],
            oc_total = total\<rparr>)"

section \<open>Points-Per-Game Tracker (\<open>ppgTimeseriesData\<close>)\<close>

record PPGDataPoint =
  date :: jsstring
  ppg :: jsnum
  points :: jsnum
  matches :: jsnum
  opponent :: jsstring
  venue :: jsstring
  result :: jsstring
  score :: jsstring
  team :: jsstring

record PPGTimeseriesData =
  primaryTeam :: "PPGDataPoint list"
  compareTeam :: "PPGDataPoint list"

definition matchPoints :: "jsstring \<Rightarrow> MatchData \<Rightarrow> jsnum" where
  "matchPoints t match =
     (let sc = parseScore (Score match)
      in if Home match = t
         then (if js_gt (homeGoals sc) (awayGoals sc) then Fin 3
               else if js_eq (homeGoals sc) (awayGoals sc) then Fin 1 else Fin 0)
         else (if js_gt (awayGoals sc) (homeGoals sc) then Fin 3
               else if js_eq (homeGoals sc) (awayGoals sc) then Fin 1 else Fin 0))"

text \<open>
  The \<open>map\<close> over the team's matches with its two counters \<open>points\<close> and
  \<open>matchesPlayed\<close>, which the callback updates before it builds each point.
\<close>

fun ppg_points :: "jsstring \<Rightarrow> jsnum \<Rightarrow> jsnum \<Rightarrow> MatchData list \<Rightarrow> PPGDataPoint list" where
  "ppg_points t pts played [] = []"
| "ppg_points t pts played (match # rest) =
     (let mp = matchPoints t match;
          pts' = js_add pts mp;
          played' = js_add played (Fin 1)
      in \<lparr>date = Date match,
          ppg = js_div pts' played',
          points = pts',
          matches = played',
          opponent = (if Home match = t then Away match else Home match),
          venue = (if Home match = t then ascii ''Home'' else ascii ''Away''),
          result = (if js_eq mp (Fin 3) then ascii ''Win''
                    else if js_eq mp (Fin 1) then ascii ''Draw'' else ascii ''Loss''),
          score = Score match,
          team = t\<rparr>
        # ppg_points t pts' played' rest)"

definition date_cmp :: "(jsstring \<Rightarrow> jsnum) \<Rightarrow> MatchData \<Rightarrow> MatchData \<Rightarrow> jsnum" where
  "date_cmp getTime a b = js_sub (getTime (Date a)) (getTime (Date b))"

definition teamMatches :: "(jsstring \<Rightarrow> jsnum) \<Rightarrow> MatchData list \<Rightarrow> jsstring \<Rightarrow> MatchData list" where
  "teamMatches getTime data t =
     js_sort (date_cmp getTime) (filter (\<lambda>match. Home match = t \<or> Away match = t) data)"

text \<open>
  The source computes the series of the compared team with a second copy of the code
  for the selected team; \<open>team_series\<close> is that code, for either team.
\<close>

definition team_series ::
  "(jsstring \<Rightarrow> jsnum) \<Rightarrow> MatchData list \<Rightarrow> jsstring \<Rightarrow> PPGDataPoint list" where
  "team_series getTime data t = ppg_points t (Fin 0) (Fin 0) (teamMatches getTime data t)"

definition ppgTimeseriesData ::
  "(jsstring \<Rightarrow> jsnum) \<Rightarrow> MatchData list \<Rightarrow> jsstring \<Rightarrow> jsstring \<Rightarrow> PPGTimeseriesData" where
  "ppgTimeseriesData getTime data selectedTeam cmpTeam =
     (if selectedTeam = [] then \<lparr>primaryTeam = [], compareTeam = []\<rparr>
      else let result = team_series getTime data selectedTeam
           in if cmpTeam \<noteq> []
              then \<lparr>primaryTeam = result, compareTeam = team_series getTime data cmpTeam\<rparr>
              else \<lparr>primaryTeam = result, compareTeam = []\<rparr>)"

section \<open>Notions used to state the properties\<close>

text \<open>The rational value of a finite number (and \<open>0\<close> for the three special values).\<close>

fun fin_val :: "jsnum \<Rightarrow> rat" where
  "fin_val (Fin a) = a"
| "fin_val x = 0"

text \<open>The operator \<open><=\<close> on numbers: false whenever NaN is involved.\<close>

definition js_le :: "jsnum \<Rightarrow> jsnum \<Rightarrow> bool" where
  "js_le x y \<longleftrightarrow> x \<noteq> NaN \<and> y \<noteq> NaN \<and> \<not> js_lt y x"

text \<open>The point of a match seen from its home side.\<close>

definition home_point :: "MatchData \<Rightarrow> XgPoint" where
  "home_point d =
     \<lparr>xp_date = Date d, xp_xG = xG d, xp_xGA = xG_away d, xp_team = Home d,
      xp_match = match_label d, xp_opponent = Away d\<rparr>"

text \<open>The point of a match seen from its away side, for the team \<open>t\<close>.\<close>

definition away_point :: "jsstring \<Rightarrow> MatchData \<Rightarrow> XgPoint" where
  "away_point t d =
     \<lparr>xp_date = Date d, xp_xG = xG_away d, xp_xGA = xG d, xp_team = t,
      xp_match = match_label d, xp_opponent = Home d\<rparr>"

text \<open>
  A series of the tracker is well-formed when the running point totals never decrease
  along it and every points-per-game value lies between \<open>0\<close> and \<open>3\<close>.
\<close>

definition ppg_series_ok :: "PPGDataPoint list \<Rightarrow> bool" where
  "ppg_series_ok s \<longleftrightarrow>
     sorted_wrt js_le (map points s)
     \<and> list_all (\<lambda>p. js_le (Fin 0) (ppg p) \<and> js_le (ppg p) (Fin 3)) s"

definition fixtures :: "MatchData list \<Rightarrow> jsstring \<Rightarrow> MatchData list" where
  "fixtures data t = filter (\<lambda>match. Home match = t \<or> Away match = t) data"

text \<open>The goals of a match as rationals, as the Score Parser reads them.\<close>

definition home_goals :: "MatchData \<Rightarrow> rat" where
  "home_goals m = fin_val (homeGoals (parseScore (Score m)))"

definition away_goals :: "MatchData \<Rightarrow> rat" where
  "away_goals m = fin_val (awayGoals (parseScore (Score m)))"

text \<open>
  What a team has accumulated over a data set: the goals it scored at home and away,
  and the number of its appearances (a match counts once for each side).
\<close>

definition goals_for :: "MatchData list \<Rightarrow> jsstring \<Rightarrow> rat" where
  "goals_for data t =
     sum_list (map home_goals (filter (\<lambda>m. Home m = t) data))
     + sum_list (map away_goals (filter (\<lambda>m. Away m = t) data))"

definition appearances :: "MatchData list \<Rightarrow> jsstring \<Rightarrow> nat" where
  "appearances data t =
     length (filter (\<lambda>m. Home m = t) data) + length (filter (\<lambda>m. Away m = t) data)"

definition rate :: "MatchData list \<Rightarrow> jsstring \<Rightarrow> jsnum" where
  "rate data t = Fin (goals_for data t / of_nat (appearances data t))"

text \<open>
  The teams in the order in which the data names them: home before away within a
  match, and each team at its first appearance only.
\<close>

definition teams_seq :: "MatchData list \<Rightarrow> jsstring list" where
  "teams_seq data = concat (map (\<lambda>m. [Home m, Away m]) data)"

fun first_seen :: "'a list \<Rightarrow> 'a list" where
  "first_seen [] = []"
| "first_seen (x # xs) = x # filter (\<lambda>y. y \<noteq> x) (first_seen xs)"

definition encounter_order :: "MatchData list \<Rightarrow> jsstring list" where
  "encounter_order data = first_seen (teams_seq data)"

text \<open>
  Sums of numbers, the total goals of a data set, and the sum over the output of rate
  times appearances.
\<close>

definition js_sum :: "jsnum list \<Rightarrow> jsnum" where
  "js_sum xs = foldl js_add (Fin 0) xs"

definition total_goals :: "MatchData list \<Rightarrow> jsnum" where
  "total_goals data =
     js_sum (map (\<lambda>m. js_add (homeGoals (parseScore (Score m)))
                          (awayGoals (parseScore (Score m)))) data)"

definition weighted_rate_sum :: "MatchData list \<Rightarrow> jsnum" where
  "weighted_rate_sum data =
     js_sum (map (\<lambda>e. js_mul (tg_goalsPerMatch e) (Fin (of_nat (appearances data (tg_team e)))))
               (teamGoals data))"

text \<open>
  What \<open>statsByTeam\<close> holds for a team when the loop is over: its accumulated goals and
  its match count, the two numbers whose quotient is the team's \<open>goalsPerMatch\<close>.
\<close>

definition accumulated_goals :: "MatchData list \<Rightarrow> jsstring \<Rightarrow> jsnum" where
  "accumulated_goals data t =
     (case map_get (statsByTeam data) t of None \<Rightarrow> Fin 0 | Some stats \<Rightarrow> st_goals stats)"

definition matchesPlayed :: "MatchData list \<Rightarrow> jsstring \<Rightarrow> jsnum" where
  "matchesPlayed data t =
     (case map_get (statsByTeam data) t of None \<Rightarrow> Fin 0 | Some stats \<Rightarrow> st_matches stats)"

text \<open>A keyed list whose values are given by a function, and finite stats.\<close>

definition keyed :: "'k list \<Rightarrow> ('k \<Rightarrow> 'v) \<Rightarrow> ('k, 'v) js_map" where
  "keyed ks f = map (\<lambda>t. (t, f t)) ks"

definition fin_stats :: "rat \<Rightarrow> nat \<Rightarrow> TeamStats" where
  "fin_stats g p = \<lparr>st_goals = Fin g, st_matches = Fin (of_nat p)\<rparr>"

definition rate_entry :: "MatchData list \<Rightarrow> jsstring \<Rightarrow> TeamGoalRate" where
  "rate_entry data t = \<lparr>tg_team = t, tg_goalsPerMatch = rate data t\<rparr>"

text \<open>
  The Points-Per-Game Tracker as the specification words it: the team's fixtures in
  ascending order of date; 3 points for a win, 1 for a draw and 0 for a loss, from the
  team's side of the match; and a left fold that carries the running points and the
  running match count and emits their quotient after each match.
\<close>

definition spec_fixtures :: "(jsstring \<Rightarrow> jsnum) \<Rightarrow> MatchData list \<Rightarrow> jsstring \<Rightarrow> MatchData list" where
  "spec_fixtures getTime data t = sort_key (\<lambda>m. fin_val (getTime (Date m))) (fixtures data t)"

definition spec_points :: "jsstring \<Rightarrow> MatchData \<Rightarrow> rat" where
  "spec_points t m =
     (let own = (if Home m = t then home_goals m else away_goals m);
          other = (if Home m = t then away_goals m else home_goals m)
      in if other < own then 3 else if own = other then 1 else 0)"

fun running_ppg :: "rat \<Rightarrow> rat \<Rightarrow> rat list \<Rightarrow> rat list" where
  "running_ppg pts n [] = []"
| "running_ppg pts n (x # xs) = (pts + x) / (n + 1) # running_ppg (pts + x) (n + 1) xs"

definition ppg_spec :: "(jsstring \<Rightarrow> jsnum) \<Rightarrow> MatchData list \<Rightarrow> jsstring \<Rightarrow> rat list" where
  "ppg_spec getTime data t = running_ppg 0 0 (map (spec_points t) (spec_fixtures getTime data t))"

subsection \<open>Sample data\<close>

text \<open>
  Sample rows for the worked examples: a score text with the en dash, a match with its
  date, teams, score and expected goals, and a clock that reads a date
  \<open>YYYY-MM-DD\<close> as the number \<open>YYYYMMDD\<close> (NaN for a text without a digit). The
  theorems hold for every clock; the examples need one.
\<close>

definition score_text :: "string \<Rightarrow> string \<Rightarrow> jsstring" where
  "score_text h a = ascii h @ [en_dash] @ ascii a"

definition sample_match ::
  "string \<Rightarrow> string \<Rightarrow> string \<Rightarrow> jsstring \<Rightarrow> rat \<Rightarrow> rat \<Rightarrow> MatchData" where
  "sample_match d h a sc x xa =
     \<lparr>Wk = Fin 1, Day = [], Date = ascii d, Time = [], Home = ascii h, xG = Fin x,
      Score = sc, xG_away = Fin xa, Away = ascii a, Attendance = [], Venue = [],
      Referee = []\<rparr>"

definition sample_getTime :: "jsstring \<Rightarrow> jsnum" where
  "sample_getTime s = parseInt (Some (filter is_digit s))"

text \<open>
  A small league for the worked examples, in upload order. Team \<open>A\<close> wins on 16 August,
  draws on 17 August and loses on 24 August; \<open>B\<close> and \<open>C\<close> end on the same rate; two
  matches share the date 17 August.
\<close>

definition sample_league :: "MatchData list" where
  "sample_league =
     [sample_match ''2024-08-24'' ''A'' ''B'' (score_text ''0'' ''1'') (11 / 10) (9 / 10),
      sample_match ''2024-08-16'' ''A'' ''C'' (score_text ''2'' ''1'') (3 / 2) (4 / 5),
      sample_match ''2024-08-17'' ''D'' ''A'' (score_text ''2'' ''2'') 2 (7 / 10),
      sample_match ''2024-08-17'' ''B'' ''C'' (score_text ''1'' ''1'') (1 / 2) (13 / 10)]"

section \<open>Properties of the Score Parser\<close>

lemma NaN_or_int:
  "(if c then NaN else Fin (of_int k)) = NaN \<or> (\<exists>j::int. (if c then NaN else Fin (of_int k)) = Fin (of_int j))"
  by auto

lemma parseInt_cases: "parseInt v = NaN \<or> (\<exists>k::int. parseInt v = Fin (of_int k))"
  unfolding parseInt_def Let_def by (rule NaN_or_int)

lemma or_zero_int: "\<exists>k::int. js_or (parseInt v) (Fin 0) = Fin (of_int k)"
proof (cases "truthy (parseInt v)")
  case True
  then show ?thesis using parseInt_cases [of v] by (auto simp: js_or_def truthy_def)
next
  case False
  have "Fin 0 = Fin (of_int 0)" by simp
  with False show ?thesis unfolding js_or_def by (metis (full_types))
qed

lemma parseScore_int:
  "\<exists>h a::int. parseScore s = \<lparr>homeGoals = Fin (of_int h), awayGoals = Fin (of_int a)\<rparr>"
  using or_zero_int [of "js_index (js_split en_dash s) 0"]
        or_zero_int [of "js_index (js_split en_dash s) 1"]
  by (auto simp: parseScore_def Let_def)

lemma js_split_nonempty: "js_split sep s \<noteq> []"
  by (induction s) (auto split: list.splits)

lemma js_split_no_sep: "sep \<notin> set s \<Longrightarrow> js_split sep s = [s]"
  by (induction s) auto

lemma parseInt_undefined: "parseInt None = NaN"
  by (simp add: parseInt_def to_string_def ascii_def is_white_space_def is_digit_def)

lemma or_zero_NaN: "js_or NaN (Fin 0) = Fin 0"
  by (simp add: js_or_def truthy_def)

lemma parseScore_2_1:
  "parseScore (ascii ''2'' @ [en_dash] @ ascii ''1'') = \<lparr>homeGoals = Fin 2, awayGoals = Fin 1\<rparr>"
  by code_simp

lemma parseScore_empty: "parseScore [] = \<lparr>homeGoals = Fin 0, awayGoals = Fin 0\<rparr>"
  by code_simp

lemma parseScore_abc_def:
  "parseScore (ascii ''abc'' @ [en_dash] @ ascii ''def'') = \<lparr>homeGoals = Fin 0, awayGoals = Fin 0\<rparr>"
  by code_simp

lemma parseScore_3: "parseScore (ascii ''3'') = \<lparr>homeGoals = Fin 3, awayGoals = Fin 0\<rparr>"
  by code_simp

lemma first_part_exists: "js_index (js_split sep s) 0 \<noteq> None"
  using js_split_nonempty [of sep s] by (simp add: js_index_def)

lemma second_part_missing: "sep \<notin> set s \<Longrightarrow> js_index (js_split sep s) 1 = None"
  by (simp add: js_split_no_sep js_index_def)

text \<open>
  Claim C7. The Score Parser has a result for every string, and no step of it can throw:
  \<open>split\<close> always yields a first piece, a missing second piece is read as \<open>undefined\<close>,
  and \<open>parseInt\<close> answers NaN where it finds no integer, which \<open>|| 0\<close> turns into \<open>0\<close>.
  Both goal counts are integers, never NaN; a side whose piece is missing or does not
  parse is \<open>0\<close>; \<open>"2-1"\<close> (with the en dash) gives \<open>2\<close> and \<open>1\<close>, the empty string and
  \<open>"abc-def"\<close> give \<open>0\<close> and \<open>0\<close>, and \<open>"3"\<close> gives \<open>3\<close> and \<open>0\<close>.
\<close>

theorem parseScore_total:
  "(\<exists>h a::int. parseScore s = \<lparr>homeGoals = Fin (of_int h), awayGoals = Fin (of_int a)\<rparr>)
   \<and> js_index (js_split en_dash s) 0 \<noteq> None
   \<and> (parseInt (js_index (js_split en_dash s) 0) = NaN \<longrightarrow> homeGoals (parseScore s) = Fin 0)
   \<and> (parseInt (js_index (js_split en_dash s) 1) = NaN \<longrightarrow> awayGoals (parseScore s) = Fin 0)
   \<and> (js_index (js_split en_dash s) 1 = None \<longrightarrow> awayGoals (parseScore s) = Fin 0)
   \<and> (en_dash \<notin> set s \<longrightarrow> awayGoals (parseScore s) = Fin 0)
   \<and> parseScore (ascii ''2'' @ [en_dash] @ ascii ''1'') = \<lparr>homeGoals = Fin 2, awayGoals = Fin 1\<rparr>
   \<and> parseScore [] = \<lparr>homeGoals = Fin 0, awayGoals = Fin 0\<rparr>
   \<and> parseScore (ascii ''abc'' @ [en_dash] @ ascii ''def'') = \<lparr>homeGoals = Fin 0, awayGoals = Fin 0\<rparr>
   \<and> parseScore (ascii ''3'') = \<lparr>homeGoals = Fin 3, awayGoals = Fin 0\<rparr>"
proof -
  have home: "parseInt (js_index (js_split en_dash s) 0) = NaN \<longrightarrow> homeGoals (parseScore s) = Fin 0"
    by (simp add: parseScore_def Let_def or_zero_NaN)
  have away: "parseInt (js_index (js_split en_dash s) 1) = NaN \<longrightarrow> awayGoals (parseScore s) = Fin 0"
    by (simp add: parseScore_def Let_def or_zero_NaN)
  have missing: "js_index (js_split en_dash s) 1 = None \<longrightarrow> awayGoals (parseScore s) = Fin 0"
    by (simp add: parseScore_def Let_def or_zero_NaN parseInt_undefined)
  have nodash: "en_dash \<notin> set s \<longrightarrow> awayGoals (parseScore s) = Fin 0"
    using missing second_part_missing [of en_dash s] by simp
  show ?thesis
    using parseScore_int [of s] first_part_exists [of en_dash s] home away missing nodash
      parseScore_2_1 parseScore_empty parseScore_abc_def parseScore_3
    by blast
qed

theorem parseScore_total_witness:
  "parseInt (js_index (js_split en_dash (ascii ''abc'' @ [en_dash] @ ascii ''def'')) 0) = NaN
   \<and> parseInt (js_index (js_split en_dash (ascii ''abc'' @ [en_dash] @ ascii ''def'')) 1) = NaN
   \<and> homeGoals (parseScore (ascii ''abc'' @ [en_dash] @ ascii ''def'')) = Fin 0
   \<and> awayGoals (parseScore (ascii ''abc'' @ [en_dash] @ ascii ''def'')) = Fin 0
   \<and> js_index (js_split en_dash (ascii ''3'')) 1 = None
   \<and> en_dash \<notin> set (ascii ''3'')
   \<and> homeGoals (parseScore (ascii ''3'')) = Fin 3
   \<and> awayGoals (parseScore (ascii ''3'')) = Fin 0"
proof -
  have h0: "parseInt (js_index (js_split en_dash (ascii ''abc'' @ [en_dash] @ ascii ''def'')) 0) = NaN"
    by code_simp
  have h1: "parseInt (js_index (js_split en_dash (ascii ''abc'' @ [en_dash] @ ascii ''def'')) 1) = NaN"
    by code_simp
  have h2: "js_index (js_split en_dash (ascii ''3'')) 1 = None"
    by code_simp
  have h3: "en_dash \<notin> set (ascii ''3'')"
    by (simp add: en_dash_def ascii_def)
  have h4: "homeGoals (parseScore (ascii ''3'')) = Fin 3"
    by code_simp
  show ?thesis
    using parseScore_total [of "ascii ''abc'' @ [en_dash] @ ascii ''def''"]
      parseScore_total [of "ascii ''3''"] h0 h1 h2 h3 h4
    by blast
qed

section \<open>Properties of the Points-Per-Game Tracker\<close>

text \<open>
  Claim C10. With the empty string as selected team, both series are empty, whatever
  the matches and the compared team are.
\<close>

theorem ppg_no_team_selected:
  "ppgTimeseriesData getTime data [] cmpTeam = \<lparr>primaryTeam = [], compareTeam = []\<rparr>"
  by (simp add: ppgTimeseriesData_def)

section \<open>Properties of the Outcome Classifier\<close>

lemma classify_counts:
  "\<exists>hw' aw' dr'::nat.
     classify (Fin (of_nat hw), Fin (of_nat aw), Fin (of_nat dr)) m
       = (Fin (of_nat hw'), Fin (of_nat aw'), Fin (of_nat dr'))
     \<and> hw' + aw' + dr' = Suc (hw + aw + dr)"
proof -
  have s: "\<And>n::nat. js_add (Fin (of_nat n)) (Fin 1) = Fin (of_nat (Suc n))"
    by (simp add: add.commute)
  show ?thesis
    unfolding classify_def Let_def prod.case s
    by (cases "js_gt (homeGoals (parseScore (Score m))) (awayGoals (parseScore (Score m)))";
        cases "js_lt (homeGoals (parseScore (Score m))) (awayGoals (parseScore (Score m)))")
       (simp_all only: if_True if_False, auto)
qed

lemma foldl_classify:
  "\<exists>hw' aw' dr'::nat.
     foldl classify (Fin (of_nat hw), Fin (of_nat aw), Fin (of_nat dr)) data
       = (Fin (of_nat hw'), Fin (of_nat aw'), Fin (of_nat dr'))
     \<and> hw' + aw' + dr' = hw + aw + dr + length data"
proof (induction data arbitrary: hw aw dr)
  case Nil
  then show ?case by simp
next
  case (Cons m data)
  obtain h a d :: nat where
    c: "classify (Fin (of_nat hw), Fin (of_nat aw), Fin (of_nat dr)) m
          = (Fin (of_nat h), Fin (of_nat a), Fin (of_nat d))"
    and n: "h + a + d = Suc (hw + aw + dr)"
    using classify_counts [of hw aw dr m] by blast
  from Cons.IH [of h a d] c n show ?case by auto
qed

lemma outcome_counts:
  "\<exists>hw aw dr::nat.
     foldl classify (Fin 0, Fin 0, Fin 0) data = (Fin (of_nat hw), Fin (of_nat aw), Fin (of_nat dr))
     \<and> hw + aw + dr = length data"
  using foldl_classify [of 0 0 0 data] by simp

text \<open>
  Claim C5. The three counts are natural numbers whose sum is the \<open>total\<close> field, and
  \<open>total\<close> is the number of matches; on the empty sequence all four are zero.
\<close>

theorem outcome_total_is_length:
  "(\<exists>hw aw dr::nat.
      oc_counts (matchOutcomes data) = [Fin (of_nat hw), Fin (of_nat aw), Fin (of_nat dr)]
      \<and> hw + aw + dr = length data)
   \<and> oc_total (matchOutcomes data) = Fin (of_nat (length data))
   \<and> oc_counts (matchOutcomes []) = [Fin 0, Fin 0, Fin 0]
   \<and> oc_total (matchOutcomes []) = Fin 0"
proof -
  obtain hw aw dr :: nat where
    f: "foldl classify (Fin 0, Fin 0, Fin 0) data = (Fin (of_nat hw), Fin (of_nat aw), Fin (of_nat dr))"
    and n: "hw + aw + dr = length data"
    using outcome_counts [of data] by blast
  have t: "oc_total (matchOutcomes data) = Fin (of_nat (hw + aw + dr))"
    by (simp add: matchOutcomes_def Let_def f)
  have c: "oc_counts (matchOutcomes data) = [Fin (of_nat hw), Fin (of_nat aw), Fin (of_nat dr)]"
    by (simp add: matchOutcomes_def Let_def f)
  have e: "oc_counts (matchOutcomes []) = [Fin 0, Fin 0, Fin 0] \<and> oc_total (matchOutcomes []) = Fin 0"
    by (simp add: matchOutcomes_def Let_def)
  from t c n e show ?thesis by auto
qed

text \<open>
  Claim C2 as stated fails: on the empty sequence \<open>total\<close> is \<open>0\<close>, each percentage is
  \<open>0 / 0 * 100\<close>, and the code has no fallback.
\<close>

theorem outcome_percentages_empty_NaN:
  "oc_percentages (matchOutcomes []) = [NaN, NaN, NaN]"
  by (simp add: matchOutcomes_def Let_def)

text \<open>
  Claim C2, amended. On the empty sequence the three percentages are NaN; on every
  non-empty sequence each percentage is the finite number \<open>count / total * 100\<close>, where
  \<open>total\<close> is the number of matches.
\<close>

theorem outcome_percentages:
  "oc_percentages (matchOutcomes []) = [NaN, NaN, NaN]
   \<and> (data \<noteq> [] \<longrightarrow>
        (\<exists>hw aw dr::nat.
           oc_counts (matchOutcomes data) = [Fin (of_nat hw), Fin (of_nat aw), Fin (of_nat dr)]
           \<and> oc_percentages (matchOutcomes data)
               = [Fin (of_nat hw / of_nat (length data) * 100),
                  Fin (of_nat aw / of_nat (length data) * 100),
                  Fin (of_nat dr / of_nat (length data) * 100)]))"
proof -
  have e: "oc_percentages (matchOutcomes []) = [NaN, NaN, NaN]"
    by (simp add: matchOutcomes_def Let_def)
  have ne: "\<exists>hw aw dr::nat.
           oc_counts (matchOutcomes data) = [Fin (of_nat hw), Fin (of_nat aw), Fin (of_nat dr)]
           \<and> oc_percentages (matchOutcomes data)
               = [Fin (of_nat hw / of_nat (length data) * 100),
                  Fin (of_nat aw / of_nat (length data) * 100),
                  Fin (of_nat dr / of_nat (length data) * 100)]" if d: "data \<noteq> []"
  proof -
    obtain hw aw dr :: nat where
      f: "foldl classify (Fin 0, Fin 0, Fin 0) data = (Fin (of_nat hw), Fin (of_nat aw), Fin (of_nat dr))"
      and n: "hw + aw + dr = length data"
      using outcome_counts [of data] by blast
    from d n have pos: "hw + aw + dr \<noteq> 0" by simp
    have t: "(of_nat hw :: rat) + of_nat aw + of_nat dr = of_nat (length data)"
      using n by (metis of_nat_add)
    have tz: "(of_nat (length data) :: rat) \<noteq> 0" using d by simp
    have "oc_percentages (matchOutcomes data)
               = [Fin (of_nat hw / of_nat (length data) * 100),
                  Fin (of_nat aw / of_nat (length data) * 100),
                  Fin (of_nat dr / of_nat (length data) * 100)]"
      using tz by (simp add: matchOutcomes_def Let_def f t)
    moreover have "oc_counts (matchOutcomes data) = [Fin (of_nat hw), Fin (of_nat aw), Fin (of_nat dr)]"
      by (simp add: matchOutcomes_def Let_def f)
    ultimately show ?thesis by blast
  qed
  from e ne show ?thesis by blast
qed

theorem outcome_percentages_witness:
  "[sample_match ''2024-08-16'' ''A'' ''B'' (score_text ''1'' ''0'') 1 1] \<noteq> []
   \<and> oc_percentages
        (matchOutcomes [sample_match ''2024-08-16'' ''A'' ''B'' (score_text ''1'' ''0'') 1 1])
       = [Fin 100, Fin 0, Fin 0]"
proof -
  let ?d = "[sample_match ''2024-08-16'' ''A'' ''B'' (score_text ''1'' ''0'') 1 1]"
  have c: "oc_counts (matchOutcomes ?d) = [Fin 1, Fin 0, Fin 0]"
    by code_simp
  have ne: "?d \<noteq> []" by simp
  obtain hw aw dr :: nat where
    k: "oc_counts (matchOutcomes ?d) = [Fin (of_nat hw), Fin (of_nat aw), Fin (of_nat dr)]"
    and q: "oc_percentages (matchOutcomes ?d)
               = [Fin (of_nat hw / of_nat (length ?d) * 100),
                  Fin (of_nat aw / of_nat (length ?d) * 100),
                  Fin (of_nat dr / of_nat (length ?d) * 100)]"
    using outcome_percentages [of ?d] ne by blast
  from c k have "hw = 1" "aw = 0" "dr = 0" by simp_all
  with q ne show ?thesis by simp
qed

section \<open>Properties of \<open>sort\<close>\<close>

lemma mset_js_insert: "mset (js_insert cmp x ys) = add_mset x (mset ys)"
  by (induction ys) auto

lemma mset_js_sort: "mset (js_sort cmp xs) = mset xs"
  by (induction xs) (auto simp: mset_js_insert)

lemma set_js_sort: "set (js_sort cmp xs) = set xs"
  using mset_js_sort [of cmp xs] by (metis set_mset_mset)

lemma length_js_sort: "length (js_sort cmp xs) = length xs"
  using mset_js_sort [of cmp xs] by (metis size_mset)

lemma js_insert_insort:
  fixes k :: "'a \<Rightarrow> rat"
  assumes "\<forall>y\<in>set ys. js_gt (cmp x y) (Fin 0) \<longleftrightarrow> k y < k x"
  shows "js_insert cmp x ys = insort_key k x ys"
  using assms by (induction ys) auto

lemma js_sort_sort_key:
  fixes k :: "'a \<Rightarrow> rat"
  assumes "\<forall>x\<in>set xs. \<forall>y\<in>set xs. js_gt (cmp x y) (Fin 0) \<longleftrightarrow> k y < k x"
  shows "js_sort cmp xs = sort_key k xs"
  using assms
proof (induction xs)
  case Nil
  then show ?case by simp
next
  case (Cons x xs)
  then have ih: "js_sort cmp xs = sort_key k xs" by simp
  have "\<forall>y\<in>set (sort_key k xs). js_gt (cmp x y) (Fin 0) \<longleftrightarrow> k y < k x"
    using Cons.prems by simp
  then show ?case
    by (simp add: ih js_insert_insort)
qed

lemma js_gt_sub: "js_gt (js_sub (Fin a) (Fin b)) (Fin 0) \<longleftrightarrow> b < a"
  by (simp add: js_gt_def js_sub_def)

lemma js_le_Fin [simp]: "js_le (Fin a) (Fin b) \<longleftrightarrow> a \<le> b"
  by (auto simp: js_le_def)

section \<open>The running totals of the Points-Per-Game Tracker\<close>

lemma three_way:
  "(if a then (if b then x else if c then y else z) else (if d then x else if c then y else z))
     \<in> {x, y, z}"
  by simp

lemma matchPoints_cases: "\<exists>k::nat. k \<le> 3 \<and> matchPoints t m = Fin (of_nat k)"
proof -
  have "matchPoints t m \<in> {Fin 3, Fin 1, Fin 0}"
    unfolding matchPoints_def Let_def by (rule three_way)
  then consider "matchPoints t m = Fin (of_nat 3)" | "matchPoints t m = Fin (of_nat 1)"
    | "matchPoints t m = Fin (of_nat 0)"
    by auto
  then show ?thesis
  proof cases
    case 1
    then show ?thesis by (intro exI [of _ 3]) simp
  next
    case 2
    then show ?thesis by (intro exI [of _ 1]) simp
  next
    case 3
    then show ?thesis by (intro exI [of _ 0]) simp
  qed
qed

lemma ppg_points_step:
  assumes "matchPoints t m = Fin (of_nat k)"
  shows "\<exists>x. ppg_points t (Fin (of_nat p)) (Fin (of_nat n)) (m # ms)
               = x # ppg_points t (Fin (of_nat (p + k))) (Fin (of_nat (Suc n))) ms
             \<and> points x = Fin (of_nat (p + k))
             \<and> ppg x = Fin (of_nat (p + k) / of_nat (Suc n))"
  using assms by (simp add: Let_def add.commute)

lemma ppg_points_lower:
  "\<forall>x\<in>set (ppg_points t (Fin (of_nat p)) (Fin (of_nat n)) ms).
     \<exists>q::nat. points x = Fin (of_nat q) \<and> p \<le> q"
proof (induction ms arbitrary: p n)
  case Nil
  then show ?case by simp
next
  case (Cons m ms)
  obtain k :: nat where k: "matchPoints t m = Fin (of_nat k)"
    using matchPoints_cases [of t m] by blast
  obtain x where
    s: "ppg_points t (Fin (of_nat p)) (Fin (of_nat n)) (m # ms)
          = x # ppg_points t (Fin (of_nat (p + k))) (Fin (of_nat (Suc n))) ms"
    and px: "points x = Fin (of_nat (p + k))"
    using ppg_points_step [OF k] by blast
  have rest: "\<forall>y\<in>set (ppg_points t (Fin (of_nat (p + k))) (Fin (of_nat (Suc n))) ms).
     \<exists>q::nat. points y = Fin (of_nat q) \<and> p \<le> q"
    using Cons.IH [of "p + k" "Suc n"] by (meson add_leD1)
  have "\<exists>q::nat. points x = Fin (of_nat q) \<and> p \<le> q"
    using px by (meson le_add1)
  with rest show ?case unfolding s by simp
qed

lemma ppg_points_sorted:
  "sorted_wrt js_le (map points (ppg_points t (Fin (of_nat p)) (Fin (of_nat n)) ms))"
proof (induction ms arbitrary: p n)
  case Nil
  then show ?case by simp
next
  case (Cons m ms)
  obtain k :: nat where k: "matchPoints t m = Fin (of_nat k)"
    using matchPoints_cases [of t m] by blast
  obtain x where
    s: "ppg_points t (Fin (of_nat p)) (Fin (of_nat n)) (m # ms)
          = x # ppg_points t (Fin (of_nat (p + k))) (Fin (of_nat (Suc n))) ms"
    and px: "points x = Fin (of_nat (p + k))"
    using ppg_points_step [OF k] by blast
  have later: "\<forall>y\<in>set (ppg_points t (Fin (of_nat (p + k))) (Fin (of_nat (Suc n))) ms).
     js_le (points x) (points y)"
    unfolding px using ppg_points_lower [of t "p + k" "Suc n" ms]
    by (metis js_le_Fin of_nat_le_iff)
  show ?case
    unfolding s using later Cons.IH [of "p + k" "Suc n"] by simp
qed

lemma ppg_points_range:
  "p \<le> 3 * n \<Longrightarrow>
   list_all (\<lambda>x. js_le (Fin 0) (ppg x) \<and> js_le (ppg x) (Fin 3))
     (ppg_points t (Fin (of_nat p)) (Fin (of_nat n)) ms)"
proof (induction ms arbitrary: p n)
  case Nil
  then show ?case by simp
next
  case (Cons m ms)
  obtain k :: nat where k3: "k \<le> 3" and k: "matchPoints t m = Fin (of_nat k)"
    using matchPoints_cases [of t m] by blast
  obtain x where
    s: "ppg_points t (Fin (of_nat p)) (Fin (of_nat n)) (m # ms)
          = x # ppg_points t (Fin (of_nat (p + k))) (Fin (of_nat (Suc n))) ms"
    and gx: "ppg x = Fin (of_nat (p + k) / of_nat (Suc n))"
    using ppg_points_step [OF k] by blast
  have le: "p + k \<le> 3 * Suc n" using Cons.prems k3 by simp
  have "(of_nat (p + k) :: rat) \<le> of_nat (3 * Suc n)"
    using le of_nat_le_iff by blast
  then have up: "(of_nat (p + k) :: rat) / of_nat (Suc n) \<le> 3"
    by (simp add: divide_le_eq)
  have lo: "0 \<le> (of_nat (p + k) :: rat) / of_nat (Suc n)"
    by simp
  show ?case
    unfolding s using Cons.IH [OF le] up lo by (simp add: gx del: of_nat_add of_nat_Suc)
qed

lemma length_ppg_points: "length (ppg_points t pts played ms) = length ms"
  by (induction ms arbitrary: pts played) (auto simp: Let_def)

lemma team_series_ok: "ppg_series_ok (team_series getTime data t)"
proof -
  have z: "Fin 0 = Fin (of_nat 0)" by simp
  show ?thesis
    unfolding ppg_series_ok_def team_series_def
    apply (subst (1 2 3 4) z)
    using ppg_points_sorted [of t 0 0] ppg_points_range [of 0 0 t] by simp
qed

lemma length_team_series:
  "length (team_series getTime data t) = length (fixtures data t)"
  by (simp add: team_series_def teamMatches_def fixtures_def length_ppg_points length_js_sort)

text \<open>
  Claim C6. In both series of the tracker the running point totals never decrease (each
  is at most every later one) and every points-per-game value lies in the closed
  interval from \<open>0\<close> to \<open>3\<close> (\<open>ppg_series_ok\<close>); the primary series has one point for
  each fixture of the selected team, the compare series one for each fixture of the
  compared team.
\<close>

theorem ppg_monotone_bounded:
  "ppg_series_ok (primaryTeam (ppgTimeseriesData getTime data selectedTeam cmpTeam))
   \<and> ppg_series_ok (compareTeam (ppgTimeseriesData getTime data selectedTeam cmpTeam))
   \<and> length (primaryTeam (ppgTimeseriesData getTime data selectedTeam cmpTeam))
       = (if selectedTeam = [] then 0 else length (fixtures data selectedTeam))
   \<and> length (compareTeam (ppgTimeseriesData getTime data selectedTeam cmpTeam))
       = (if selectedTeam = [] \<or> cmpTeam = [] then 0 else length (fixtures data cmpTeam))"
proof -
  have e: "ppg_series_ok []" by (simp add: ppg_series_ok_def)
  show ?thesis
    by (simp add: ppgTimeseriesData_def Let_def e team_series_ok length_team_series)
qed

section \<open>Properties of the xG Time Series Builder\<close>

lemma xg_point_away:
  "selectedTeam \<noteq> [] \<Longrightarrow> Away d = selectedTeam \<Longrightarrow> Home d \<noteq> selectedTeam \<Longrightarrow>
   xg_point selectedTeam d = away_point selectedTeam d"
  by (simp add: xg_point_def away_point_def)

lemma xg_point_none: "xg_point [] = home_point"
  by (rule ext) (simp add: xg_point_def home_point_def)

lemma mset_timeseriesData:
  "mset (timeseriesData getTime data selectedTeam)
     = image_mset (xg_point selectedTeam)
         (mset (if selectedTeam \<noteq> [] then fixtures data selectedTeam else data))"
  by (simp add: timeseriesData_def Let_def mset_js_sort fixtures_def)

lemma timeseries_fixture:
  "timeseriesData getTime [sample_match dt ''A'' ''B'' sc (3 / 2) (4 / 5)] (ascii ''B'')
     = [\<lparr>xp_date = ascii dt, xp_xG = Fin (4 / 5), xp_xGA = Fin (3 / 2), xp_team = ascii ''B'',
         xp_match = ascii ''A vs B'', xp_opponent = ascii ''A''\<rparr>]"
  by (simp add: timeseriesData_def Let_def sample_match_def xg_point_def match_label_def ascii_def)

text \<open>
  Claim C3. With a team selected, the output holds exactly one point for each match
  of that team; for a match of the data in which the selected team is the away side
  (and not also the home side) that point carries \<open>xG_away\<close> as \<open>xG\<close>, \<open>xG\<close> as \<open>xGA\<close>
  and the home team as opponent (\<open>away_point\<close>). For the one match of \<open>A\<close> at home to \<open>B\<close>
  with expected goals \<open>1.5\<close> and \<open>0.8\<close>, selecting \<open>B\<close> gives the single point with
  \<open>xG = 0.8\<close>, \<open>xGA = 1.5\<close> and opponent \<open>A\<close>.
\<close>

theorem xg_away_perspective:
  "(selectedTeam \<noteq> [] \<and> d \<in> set data \<and> Away d = selectedTeam \<and> Home d \<noteq> selectedTeam
      \<longrightarrow> away_point selectedTeam d \<in> set (timeseriesData getTime data selectedTeam))
   \<and> (selectedTeam \<noteq> [] \<longrightarrow>
        mset (timeseriesData getTime data selectedTeam)
          = image_mset (xg_point selectedTeam) (mset (fixtures data selectedTeam)))
   \<and> (selectedTeam \<noteq> [] \<and> Away d = selectedTeam \<and> Home d \<noteq> selectedTeam
      \<longrightarrow> xg_point selectedTeam d = away_point selectedTeam d)
   \<and> timeseriesData getTime [sample_match dt ''A'' ''B'' sc (3 / 2) (4 / 5)] (ascii ''B'')
       = [\<lparr>xp_date = ascii dt, xp_xG = Fin (4 / 5), xp_xGA = Fin (3 / 2), xp_team = ascii ''B'',
           xp_match = ascii ''A vs B'', xp_opponent = ascii ''A''\<rparr>]"
proof -
  have m: "away_point selectedTeam d \<in> set (timeseriesData getTime data selectedTeam)"
    if s: "selectedTeam \<noteq> []" and d: "d \<in> set data" and a: "Away d = selectedTeam"
      and h: "Home d \<noteq> selectedTeam"
  proof -
    have "d \<in> set (fixtures data selectedTeam)"
      using d a by (simp add: fixtures_def)
    then have "xg_point selectedTeam d \<in># mset (timeseriesData getTime data selectedTeam)"
      using s by (simp add: mset_timeseriesData)
    then show ?thesis
      using xg_point_away [OF s a h] by simp
  qed
  show ?thesis
    using m mset_timeseriesData [of getTime data selectedTeam] xg_point_away [of selectedTeam d]
      timeseries_fixture [of getTime dt sc]
    by auto
qed

theorem xg_away_perspective_witness:
  "ascii ''B'' \<noteq> []
   \<and> sample_match ''2024-08-24'' ''A'' ''B'' (score_text ''2'' ''1'') (3 / 2) (4 / 5)
        \<in> set [sample_match ''2024-08-25'' ''B'' ''C'' (score_text ''0'' ''0'') 1 2,
                sample_match ''2024-08-24'' ''A'' ''B'' (score_text ''2'' ''1'') (3 / 2) (4 / 5)]
   \<and> Away (sample_match ''2024-08-24'' ''A'' ''B'' (score_text ''2'' ''1'') (3 / 2) (4 / 5)) = ascii ''B''
   \<and> Home (sample_match ''2024-08-24'' ''A'' ''B'' (score_text ''2'' ''1'') (3 / 2) (4 / 5)) \<noteq> ascii ''B''
   \<and> \<lparr>xp_date = ascii ''2024-08-24'', xp_xG = Fin (4 / 5), xp_xGA = Fin (3 / 2),
       xp_team = ascii ''B'', xp_match = ascii ''A vs B'', xp_opponent = ascii ''A''\<rparr>
        \<in> set (timeseriesData sample_getTime
                 [sample_match ''2024-08-25'' ''B'' ''C'' (score_text ''0'' ''0'') 1 2,
                  sample_match ''2024-08-24'' ''A'' ''B'' (score_text ''2'' ''1'') (3 / 2) (4 / 5)]
                 (ascii ''B''))"
proof -
  let ?d = "sample_match ''2024-08-24'' ''A'' ''B'' (score_text ''2'' ''1'') (3 / 2) (4 / 5)"
  let ?data = "[sample_match ''2024-08-25'' ''B'' ''C'' (score_text ''0'' ''0'') 1 2, ?d]"
  have s: "ascii ''B'' \<noteq> []" by (simp add: ascii_def)
  have i: "?d \<in> set ?data" by simp
  have a: "Away ?d = ascii ''B''" by (simp add: sample_match_def)
  have h: "Home ?d \<noteq> ascii ''B''" by (simp add: sample_match_def ascii_def)
  have p: "away_point (ascii ''B'') ?d
             = \<lparr>xp_date = ascii ''2024-08-24'', xp_xG = Fin (4 / 5), xp_xGA = Fin (3 / 2),
                xp_team = ascii ''B'', xp_match = ascii ''A vs B'', xp_opponent = ascii ''A''\<rparr>"
    by (simp add: away_point_def sample_match_def match_label_def ascii_def)
  have "away_point (ascii ''B'') ?d \<in> set (timeseriesData sample_getTime ?data (ascii ''B''))"
    using xg_away_perspective [of "ascii ''B''" ?d ?data sample_getTime] s i a h by blast
  then show ?thesis using s i a h p by simp
qed

lemma xg_cmp_key:
  assumes "\<forall>d\<in>set data. \<exists>t. getTime (Date d) = Fin t"
  shows "\<forall>x\<in>set (map home_point data). \<forall>y\<in>set (map home_point data).
           js_gt (xg_cmp getTime x y) (Fin 0)
             \<longleftrightarrow> fin_val (getTime (xp_date y)) < fin_val (getTime (xp_date x))"
proof (intro ballI)
  fix x y
  assume "x \<in> set (map home_point data)" "y \<in> set (map home_point data)"
  then obtain dx dy where "dx \<in> set data" "xp_date x = Date dx"
    and "dy \<in> set data" "xp_date y = Date dy"
    by (auto simp: home_point_def)
  then obtain a b where "getTime (xp_date x) = Fin a" "getTime (xp_date y) = Fin b"
    using assms by metis
  then show "js_gt (xg_cmp getTime x y) (Fin 0)
             \<longleftrightarrow> fin_val (getTime (xp_date y)) < fin_val (getTime (xp_date x))"
    by (simp add: xg_cmp_def js_gt_sub)
qed

lemma timeseries_all_sort_key:
  assumes "\<forall>d\<in>set data. \<exists>t. getTime (Date d) = Fin t"
  shows "timeseriesData getTime data []
           = sort_key (\<lambda>p. fin_val (getTime (xp_date p))) (map home_point data)"
proof -
  show ?thesis
    using js_sort_sort_key [OF xg_cmp_key [OF assms]]
    by (simp add: timeseriesData_def xg_point_none)
qed

lemma sorted_key_js_le:
  assumes "sorted (map k xs)" and "\<forall>x\<in>set xs. g x = Fin (k x)"
  shows "sorted_wrt (\<lambda>a b. js_le (g a) (g b)) xs"
  using assms by (induction xs) auto

text \<open>
  Claim C8. With no team selected the output holds exactly one point for each match,
  the point seen from the home side (\<open>home_point\<close>). Where every date of the data is a
  valid date, the output is in ascending order of date, and the points of any one date
  stand in the order of their matches in the data.
\<close>

theorem xg_all_matches_sorted:
  "mset (timeseriesData getTime data []) = image_mset home_point (mset data)
   \<and> ((\<forall>d\<in>set data. \<exists>t. getTime (Date d) = Fin t) \<longrightarrow>
        sorted_wrt (\<lambda>a b. js_le (getTime (xp_date a)) (getTime (xp_date b)))
          (timeseriesData getTime data [])
        \<and> filter (\<lambda>p. getTime (xp_date p) = T) (timeseriesData getTime data [])
            = map home_point (filter (\<lambda>d. getTime (Date d) = T) data))"
proof -
  have one: "mset (timeseriesData getTime data []) = image_mset home_point (mset data)"
    using mset_timeseriesData [of getTime data "[]"] by (simp add: xg_point_none)
  have two: "sorted_wrt (\<lambda>a b. js_le (getTime (xp_date a)) (getTime (xp_date b)))
          (timeseriesData getTime data [])
        \<and> filter (\<lambda>p. getTime (xp_date p) = T) (timeseriesData getTime data [])
            = map home_point (filter (\<lambda>d. getTime (Date d) = T) data)"
    if v: "\<forall>d\<in>set data. \<exists>t. getTime (Date d) = Fin t"
  proof -
    let ?k = "\<lambda>p. fin_val (getTime (xp_date p))"
    let ?out = "timeseriesData getTime data []"
    have eq: "?out = sort_key ?k (map home_point data)"
      by (rule timeseries_all_sort_key [OF v])
    have fin: "\<forall>p\<in>set ?out. getTime (xp_date p) = Fin (?k p)"
      unfolding eq using v by (auto simp: home_point_def)
    have "sorted (map ?k ?out)"
      unfolding eq by (rule sorted_sort_key)
    then have srt: "sorted_wrt (\<lambda>a b. js_le (getTime (xp_date a)) (getTime (xp_date b))) ?out"
      using fin by (rule sorted_key_js_le)
    have stab: "filter (\<lambda>p. getTime (xp_date p) = T) ?out
            = map home_point (filter (\<lambda>d. getTime (Date d) = T) data)"
    proof (cases "\<exists>t. T = Fin t")
      case True
      then obtain t where T: "T = Fin t" by blast
      have "filter (\<lambda>p. getTime (xp_date p) = T) ?out = filter (\<lambda>p. ?k p = t) ?out"
        using fin by (intro filter_cong refl) (auto simp: T)
      also have "\<dots> = filter (\<lambda>p. ?k p = t) (map home_point data)"
        unfolding eq by (rule sort_key_stable)
      also have "\<dots> = filter (\<lambda>p. getTime (xp_date p) = T) (map home_point data)"
        using v by (intro filter_cong refl) (auto simp: T home_point_def)
      also have "\<dots> = map home_point (filter (\<lambda>d. getTime (Date d) = T) data)"
        by (simp add: filter_map comp_def home_point_def)
      finally show ?thesis .
    next
      case False
      then have "filter (\<lambda>p. getTime (xp_date p) = T) ?out = []"
        using fin by (auto simp: filter_empty_conv)
      moreover have "filter (\<lambda>d. getTime (Date d) = T) data = []"
        using v False by (auto simp: filter_empty_conv)
      ultimately show ?thesis by simp
    qed
    from srt stab show ?thesis by blast
  qed
  from one two show ?thesis by blast
qed

section \<open>Properties of the Team Goal-Rate Aggregator\<close>

lemma parseScore_fin:
  "homeGoals (parseScore s) = Fin (fin_val (homeGoals (parseScore s)))
   \<and> awayGoals (parseScore s) = Fin (fin_val (awayGoals (parseScore s)))"
  using parseScore_int [of s] by auto

lemma homeGoals_fin: "homeGoals (parseScore (Score m)) = Fin (home_goals m)"
  using parseScore_fin [of "Score m"] by (simp add: home_goals_def)

lemma awayGoals_fin: "awayGoals (parseScore (Score m)) = Fin (away_goals m)"
  using parseScore_fin [of "Score m"] by (simp add: away_goals_def)

lemma set_first_seen [simp]: "set (first_seen xs) = set xs"
  by (induction xs) auto

lemma distinct_first_seen [simp]: "distinct (first_seen xs)"
  by (induction xs) auto

lemma first_seen_snoc:
  "first_seen (xs @ [k]) = first_seen xs @ (if k \<in> set xs then [] else [k])"
  by (induction xs) auto

lemma map_get_keyed: "map_get (keyed ks f) k = (if k \<in> set ks then Some (f k) else None)"
  by (induction ks) (auto simp: keyed_def map_get_def)

lemma map_set_keyed:
  "distinct ks \<Longrightarrow>
   map_set (keyed ks f) k v = keyed (ks @ (if k \<in> set ks then [] else [k])) (f(k := v))"
  by (induction ks) (auto simp: keyed_def)

lemma keyed_cong: "(\<And>t. t \<in> set ks \<Longrightarrow> f t = g t) \<Longrightarrow> keyed ks f = keyed ks g"
  by (simp add: keyed_def)

lemma add_match_keyed:
  assumes "k \<notin> set ks \<longrightarrow> G k = 0 \<and> P k = 0"
  shows "add_match (Fin x) (map_get (keyed ks (\<lambda>t. fin_stats (G t) (P t))) k)
           = fin_stats (G k + x) (Suc (P k))"
  using assms by (simp add: map_get_keyed add_match_def fin_stats_def Let_def add.commute)

lemma unseen_zero:
  "t \<notin> set (teams_seq data) \<Longrightarrow> goals_for data t = 0 \<and> appearances data t = 0"
  by (induction data) (auto simp: teams_seq_def goals_for_def appearances_def)

lemma goals_for_snoc:
  "goals_for (data @ [m]) t
     = goals_for data t + (if Home m = t then home_goals m else 0)
         + (if Away m = t then away_goals m else 0)"
  by (simp add: goals_for_def)

lemma appearances_snoc:
  "appearances (data @ [m]) t
     = appearances data t + (if Home m = t then 1 else 0) + (if Away m = t then 1 else 0)"
  by (simp add: appearances_def)

lemma teams_seq_snoc: "teams_seq (data @ [m]) = teams_seq data @ [Home m, Away m]"
  by (simp add: teams_seq_def)

lemma first_seen_snoc2:
  "first_seen (xs @ [h, a])
     = (first_seen xs @ (if h \<in> set xs then [] else [h]))
         @ (if a \<in> set (first_seen xs @ (if h \<in> set xs then [] else [h])) then [] else [a])"
proof -
  have e: "xs @ [h, a] = (xs @ [h]) @ [a]" by simp
  show ?thesis
    unfolding e first_seen_snoc [of "xs @ [h]"] first_seen_snoc [of xs] by auto
qed

lemma encounter_order_snoc:
  "encounter_order (data @ [m])
     = (encounter_order data @ (if Home m \<in> set (encounter_order data) then [] else [Home m]))
         @ (if Away m \<in> set (encounter_order data
                                 @ (if Home m \<in> set (encounter_order data) then [] else [Home m]))
            then [] else [Away m])"
  unfolding encounter_order_def teams_seq_snoc
  using first_seen_snoc2 [of "teams_seq data" "Home m" "Away m"] by simp

lemma teamGoals_step_keyed:
  assumes d: "distinct ks" and z: "\<forall>k. k \<notin> set ks \<longrightarrow> G k = 0 \<and> P k = 0"
  shows "teamGoals_step (keyed ks (\<lambda>t. fin_stats (G t) (P t))) m
           = keyed ((ks @ (if Home m \<in> set ks then [] else [Home m]))
                     @ (if Away m \<in> set (ks @ (if Home m \<in> set ks then [] else [Home m]))
                        then [] else [Away m]))
               (\<lambda>t. fin_stats
                      (G t + (if Home m = t then home_goals m else 0)
                           + (if Away m = t then away_goals m else 0))
                      (P t + (if Home m = t then 1 else 0) + (if Away m = t then 1 else 0)))"
proof -
  define ks1 where "ks1 = ks @ (if Home m \<in> set ks then [] else [Home m])"
  define G1 where "G1 = (\<lambda>t. G t + (if Home m = t then home_goals m else 0))"
  define P1 where "P1 = (\<lambda>t. P t + (if Home m = t then 1 else 0))"
  have d1: "distinct ks1" using d by (simp add: ks1_def)
  have z1: "\<forall>k. k \<notin> set ks1 \<longrightarrow> G1 k = 0 \<and> P1 k = 0"
    using z by (auto simp: ks1_def G1_def P1_def)
  have home: "add_match (Fin (home_goals m)) (map_get (keyed ks (\<lambda>t. fin_stats (G t) (P t))) (Home m))
                = fin_stats (G (Home m) + home_goals m) (Suc (P (Home m)))"
    using z by (intro add_match_keyed) simp
  have f1: "(\<lambda>t. fin_stats (G t) (P t))(Home m := fin_stats (G (Home m) + home_goals m) (Suc (P (Home m))))
              = (\<lambda>t. fin_stats (G1 t) (P1 t))"
    by (rule ext) (simp add: G1_def P1_def)
  have m1: "map_set (keyed ks (\<lambda>t. fin_stats (G t) (P t))) (Home m)
              (fin_stats (G (Home m) + home_goals m) (Suc (P (Home m))))
            = keyed ks1 (\<lambda>t. fin_stats (G1 t) (P1 t))"
    unfolding map_set_keyed [OF d] f1 ks1_def ..
  have away: "add_match (Fin (away_goals m)) (map_get (keyed ks1 (\<lambda>t. fin_stats (G1 t) (P1 t))) (Away m))
                = fin_stats (G1 (Away m) + away_goals m) (Suc (P1 (Away m)))"
    using z1 by (intro add_match_keyed) simp
  have f2: "(\<lambda>t. fin_stats (G1 t) (P1 t))(Away m := fin_stats (G1 (Away m) + away_goals m) (Suc (P1 (Away m))))
              = (\<lambda>t. fin_stats
                      (G t + (if Home m = t then home_goals m else 0)
                           + (if Away m = t then away_goals m else 0))
                      (P t + (if Home m = t then 1 else 0) + (if Away m = t then 1 else 0)))"
    by (rule ext) (simp add: G1_def P1_def)
  have m2: "map_set (keyed ks1 (\<lambda>t. fin_stats (G1 t) (P1 t))) (Away m)
              (fin_stats (G1 (Away m) + away_goals m) (Suc (P1 (Away m))))
            = keyed (ks1 @ (if Away m \<in> set ks1 then [] else [Away m]))
               (\<lambda>t. fin_stats
                      (G t + (if Home m = t then home_goals m else 0)
                           + (if Away m = t then away_goals m else 0))
                      (P t + (if Home m = t then 1 else 0) + (if Away m = t then 1 else 0)))"
    unfolding map_set_keyed [OF d1] f2 ..
  have "teamGoals_step (keyed ks (\<lambda>t. fin_stats (G t) (P t))) m
          = keyed (ks1 @ (if Away m \<in> set ks1 then [] else [Away m]))
               (\<lambda>t. fin_stats
                      (G t + (if Home m = t then home_goals m else 0)
                           + (if Away m = t then away_goals m else 0))
                      (P t + (if Home m = t then 1 else 0) + (if Away m = t then 1 else 0)))"
    unfolding teamGoals_step_def Let_def homeGoals_fin awayGoals_fin home m1 away m2 ..
  then show ?thesis
    unfolding ks1_def .
qed

lemma statsByTeam_keyed:
  "statsByTeam data
     = keyed (encounter_order data) (\<lambda>t. fin_stats (goals_for data t) (appearances data t))"
proof (induction data rule: rev_induct)
  case Nil
  then show ?case
    by (simp add: statsByTeam_def keyed_def encounter_order_def teams_seq_def)
next
  case (snoc m data)
  have d: "distinct (encounter_order data)"
    by (simp add: encounter_order_def)
  have z: "\<forall>k. k \<notin> set (encounter_order data) \<longrightarrow> goals_for data k = 0 \<and> appearances data k = 0"
    using unseen_zero [of _ data] by (simp add: encounter_order_def)
  have "statsByTeam (data @ [m]) = teamGoals_step (statsByTeam data) m"
    by (simp add: statsByTeam_def)
  also have "\<dots> = teamGoals_step
       (keyed (encounter_order data) (\<lambda>t. fin_stats (goals_for data t) (appearances data t))) m"
    by (simp only: snoc.IH)
  also have "\<dots> = keyed (encounter_order (data @ [m]))
       (\<lambda>t. fin_stats (goals_for (data @ [m]) t) (appearances (data @ [m]) t))"
    unfolding teamGoals_step_keyed [OF d z] encounter_order_snoc goals_for_snoc appearances_snoc ..
  finally show ?case .
qed

lemma seen_appears: "t \<in> set (teams_seq data) \<Longrightarrow> 0 < appearances data t"
  by (induction data) (auto simp: teams_seq_def appearances_def)

lemma appearances_pos: "t \<in> set (encounter_order data) \<Longrightarrow> 0 < appearances data t"
  by (simp add: encounter_order_def seen_appears)

lemma set_encounter_order: "set (encounter_order data) = Home ` set data \<union> Away ` set data"
  by (auto simp: encounter_order_def teams_seq_def)

lemma rated_list:
  "map (\<lambda>(team, stats).
               \<lparr>tg_team = team,
                tg_goalsPerMatch = js_div (st_goals stats) (st_matches stats)\<rparr>)
          (filter (\<lambda>(_, stats). js_gt (st_matches stats) (Fin 0)) (statsByTeam data))
     = map (rate_entry data) (encounter_order data)"
proof -
  have keep: "filter (\<lambda>(_, stats). js_gt (st_matches stats) (Fin 0)) (statsByTeam data)
                = statsByTeam data"
    unfolding statsByTeam_keyed keyed_def
    using appearances_pos [of _ data]
    by (intro filter_True) (auto simp: fin_stats_def js_gt_def)
  show ?thesis
    unfolding keep
    unfolding statsByTeam_keyed keyed_def
    using appearances_pos [of _ data]
    by (auto simp: fin_stats_def rate_entry_def rate_def)
qed

lemma rate_cmp_key:
  "\<forall>x\<in>set (map (rate_entry data) ks). \<forall>y\<in>set (map (rate_entry data) ks).
     js_gt (rate_cmp x y) (Fin 0)
       \<longleftrightarrow> - fin_val (tg_goalsPerMatch y) < - fin_val (tg_goalsPerMatch x)"
  by (auto simp: rate_cmp_def rate_entry_def rate_def js_gt_sub)

lemma teamGoals_sort_key:
  "teamGoals data
     = sort_key (\<lambda>e. - fin_val (tg_goalsPerMatch e)) (map (rate_entry data) (encounter_order data))"
  unfolding teamGoals_def rated_list
  by (rule js_sort_sort_key [OF rate_cmp_key])

lemma mset_teamGoals:
  "mset (teamGoals data) = mset (map (rate_entry data) (encounter_order data))"
  unfolding teamGoals_sort_key by simp

lemma mset_teamGoals_teams: "mset (map tg_team (teamGoals data)) = mset (encounter_order data)"
proof -
  have "mset (map tg_team (teamGoals data))
          = mset (map tg_team (map (rate_entry data) (encounter_order data)))"
    using mset_teamGoals [of data] by (metis mset_map)
  also have "map tg_team (map (rate_entry data) (encounter_order data)) = encounter_order data"
    by (simp add: comp_def rate_entry_def)
  finally show ?thesis .
qed

lemma teamGoals_entry:
  assumes "e \<in> set (teamGoals data)"
  shows "e = rate_entry data (tg_team e) \<and> tg_team e \<in> set (encounter_order data)"
proof -
  have "e \<in> set (map (rate_entry data) (encounter_order data))"
    using assms mset_teamGoals [of data] by (metis set_mset_mset)
  then show ?thesis by (auto simp: rate_entry_def)
qed

lemma sorted_neg_key_js_le:
  assumes "sorted (map (\<lambda>x. - k x) xs)" and "\<forall>x\<in>set xs. g x = Fin (k x)"
  shows "sorted_wrt (\<lambda>a b. js_le (g b) (g a)) xs"
  using assms by (induction xs) auto

text \<open>
  Claim C9. The map \<open>statsByTeam\<close> holds, for each team in the order of first
  appearance, the goals it scored and the number of its appearances. The output names
  each team of the data exactly once; the rate of a team is its accumulated goals
  divided by the number of its appearances; the rates descend
  along the output; and the teams of any one rate stand in the order in which the
  data first names them.
\<close>

theorem teamGoals_sorted_by_rate:
  "statsByTeam data
     = keyed (encounter_order data) (\<lambda>t. fin_stats (goals_for data t) (appearances data t))
   \<and> distinct (map tg_team (teamGoals data))
   \<and> set (map tg_team (teamGoals data)) = Home ` set data \<union> Away ` set data
   \<and> (\<forall>e\<in>set (teamGoals data).
         0 < appearances data (tg_team e)
         \<and> tg_goalsPerMatch e
             = Fin (goals_for data (tg_team e) / of_nat (appearances data (tg_team e))))
   \<and> sorted_wrt (\<lambda>a b. js_le (tg_goalsPerMatch b) (tg_goalsPerMatch a)) (teamGoals data)
   \<and> map tg_team (filter (\<lambda>e. tg_goalsPerMatch e = r) (teamGoals data))
       = filter (\<lambda>t. rate data t = r) (encounter_order data)"
proof -
  let ?out = "teamGoals data"
  let ?key = "\<lambda>e. - fin_val (tg_goalsPerMatch e)"
  have dist: "distinct (map tg_team ?out)"
    using mset_teamGoals_teams [of data]
    by (metis distinct_first_seen encounter_order_def mset_eq_imp_distinct_iff)
  have teams: "set (map tg_team ?out) = Home ` set data \<union> Away ` set data"
    using mset_teamGoals_teams [of data] set_encounter_order [of data]
    by (metis set_mset_mset)
  have entries: "\<forall>e\<in>set ?out.
         0 < appearances data (tg_team e)
         \<and> tg_goalsPerMatch e
             = Fin (goals_for data (tg_team e) / of_nat (appearances data (tg_team e)))"
  proof
    fix e assume "e \<in> set ?out"
    then have e: "e = rate_entry data (tg_team e)" and t: "tg_team e \<in> set (encounter_order data)"
      using teamGoals_entry by blast+
    have "tg_goalsPerMatch (rate_entry data (tg_team e))
            = Fin (goals_for data (tg_team e) / of_nat (appearances data (tg_team e)))"
      by (simp add: rate_entry_def rate_def)
    with e have "tg_goalsPerMatch e
            = Fin (goals_for data (tg_team e) / of_nat (appearances data (tg_team e)))"
      by simp
    with appearances_pos [OF t]
    show "0 < appearances data (tg_team e)
         \<and> tg_goalsPerMatch e
             = Fin (goals_for data (tg_team e) / of_nat (appearances data (tg_team e)))"
      by simp
  qed
  have fin: "\<forall>e\<in>set ?out. tg_goalsPerMatch e = Fin (fin_val (tg_goalsPerMatch e))"
    using entries by simp
  have "sorted (map ?key ?out)"
    unfolding teamGoals_sort_key by (rule sorted_sort_key)
  then have srt: "sorted_wrt (\<lambda>a b. js_le (tg_goalsPerMatch b) (tg_goalsPerMatch a)) ?out"
    using fin by (rule sorted_neg_key_js_le)
  have stab: "map tg_team (filter (\<lambda>e. tg_goalsPerMatch e = r) ?out)
       = filter (\<lambda>t. rate data t = r) (encounter_order data)"
  proof (cases "\<exists>q. r = Fin q")
    case True
    then obtain q where r: "r = Fin q" by blast
    have "filter (\<lambda>e. tg_goalsPerMatch e = r) ?out = filter (\<lambda>e. ?key e = - q) ?out"
      using fin by (intro filter_cong refl) (auto simp: r)
    also have "\<dots> = filter (\<lambda>e. ?key e = - q) (map (rate_entry data) (encounter_order data))"
      unfolding teamGoals_sort_key by (rule sort_key_stable)
    also have "\<dots> = map (rate_entry data) (filter (\<lambda>t. rate data t = r) (encounter_order data))"
      by (simp add: filter_map comp_def rate_entry_def rate_def r)
    finally show ?thesis
      by (simp add: comp_def rate_entry_def)
  next
    case False
    then have "filter (\<lambda>e. tg_goalsPerMatch e = r) ?out = []"
      using fin by (auto simp: filter_empty_conv)
    moreover have "filter (\<lambda>t. rate data t = r) (encounter_order data) = []"
      using False by (auto simp: filter_empty_conv rate_def)
    ultimately show ?thesis by simp
  qed
  from statsByTeam_keyed [of data] dist teams entries srt stab show ?thesis by blast
qed

lemma foldl_js_add_Fin: "foldl js_add (Fin a) (map Fin xs) = Fin (a + sum_list xs)"
  by (induction xs arbitrary: a) (auto simp: add.assoc)

lemma js_sum_Fin: "js_sum (map Fin xs) = Fin (sum_list xs)"
  by (simp add: js_sum_def foldl_js_add_Fin)

lemma total_goals_Fin:
  "total_goals data = Fin (\<Sum>m\<leftarrow>data. home_goals m + away_goals m)"
proof -
  have "map (\<lambda>m. js_add (homeGoals (parseScore (Score m))) (awayGoals (parseScore (Score m)))) data
          = map Fin (map (\<lambda>m. home_goals m + away_goals m) data)"
    by (simp add: homeGoals_fin awayGoals_fin)
  then show ?thesis
    unfolding total_goals_def by (simp only: js_sum_Fin)
qed

lemma goals_for_Cons:
  "goals_for (m # data) t
     = (if Home m = t then home_goals m else 0) + (if Away m = t then away_goals m else 0)
         + goals_for data t"
  by (simp add: goals_for_def)

lemma sum_goals_for:
  assumes "finite K"
  shows "(\<Sum>t\<in>K. goals_for data t)
           = (\<Sum>m\<leftarrow>data. (if Home m \<in> K then home_goals m else 0)
                          + (if Away m \<in> K then away_goals m else 0))"
proof (induction data)
  case Nil
  then show ?case by (simp add: goals_for_def)
next
  case (Cons m data)
  have h: "(\<Sum>t\<in>K. if Home m = t then home_goals m else 0)
             = (if Home m \<in> K then home_goals m else 0)"
    using assms by (simp add: sum.delta')
  have a: "(\<Sum>t\<in>K. if Away m = t then away_goals m else 0)
             = (if Away m \<in> K then away_goals m else 0)"
    using assms by (simp add: sum.delta')
  show ?case
    unfolding goals_for_Cons sum.distrib h a Cons.IH by simp
qed

lemma sum_goals_all_teams:
  "(\<Sum>t\<leftarrow>encounter_order data. goals_for data t)
     = (\<Sum>m\<leftarrow>data. home_goals m + away_goals m)"
proof -
  have "(\<Sum>t\<leftarrow>encounter_order data. goals_for data t)
          = (\<Sum>t\<in>set (encounter_order data). goals_for data t)"
    by (intro sum_list_distinct_conv_sum_set) (simp add: encounter_order_def)
  also have "\<dots> = (\<Sum>m\<leftarrow>data. (if Home m \<in> set (encounter_order data) then home_goals m else 0)
                          + (if Away m \<in> set (encounter_order data) then away_goals m else 0))"
    by (rule sum_goals_for) simp
  also have "\<dots> = (\<Sum>m\<leftarrow>data. home_goals m + away_goals m)"
    by (intro arg_cong [where f = sum_list] map_cong refl) (simp add: set_encounter_order)
  finally show ?thesis .
qed

lemma accumulated_goals_Fin:
  "t \<in> set (encounter_order data) \<Longrightarrow> accumulated_goals data t = Fin (goals_for data t)"
  by (simp add: accumulated_goals_def statsByTeam_keyed map_get_keyed fin_stats_def)

lemma matchesPlayed_Fin:
  "t \<in> set (encounter_order data) \<Longrightarrow> matchesPlayed data t = Fin (of_nat (appearances data t))"
  by (simp add: matchesPlayed_def statsByTeam_keyed map_get_keyed fin_stats_def)

lemma appearances_Cons:
  "appearances (m # data) t
     = (if Home m = t then 1 else 0) + (if Away m = t then 1 else 0) + appearances data t"
  by (simp add: appearances_def)

lemma sum_appearances:
  assumes "finite K"
  shows "(\<Sum>t\<in>K. appearances data t)
           = (\<Sum>m\<leftarrow>data. (if Home m \<in> K then 1 else 0) + (if Away m \<in> K then 1 else 0))"
proof (induction data)
  case Nil
  then show ?case by (simp add: appearances_def)
next
  case (Cons m data)
  have h: "(\<Sum>t\<in>K. if Home m = t then 1 else 0) = (if Home m \<in> K then 1 else (0::nat))"
    using assms by (simp add: sum.delta')
  have a: "(\<Sum>t\<in>K. if Away m = t then 1 else 0) = (if Away m \<in> K then 1 else (0::nat))"
    using assms by (simp add: sum.delta')
  show ?case
    unfolding appearances_Cons sum.distrib h a Cons.IH by simp
qed

lemma sum_appearances_all_teams:
  "(\<Sum>t\<leftarrow>encounter_order data. appearances data t) = 2 * length data"
proof -
  have "(\<Sum>t\<leftarrow>encounter_order data. appearances data t)
          = (\<Sum>t\<in>set (encounter_order data). appearances data t)"
    by (intro sum_list_distinct_conv_sum_set) (simp add: encounter_order_def)
  also have "\<dots> = (\<Sum>m\<leftarrow>data. (if Home m \<in> set (encounter_order data) then 1 else 0)
                          + (if Away m \<in> set (encounter_order data) then 1 else 0))"
    by (rule sum_appearances) simp
  also have "\<dots> = (\<Sum>m\<leftarrow>data. 2)"
    by (intro arg_cong [where f = sum_list] map_cong refl) (simp add: set_encounter_order)
  also have "\<dots> = 2 * length data"
    by (simp add: sum_list_triv)
  finally show ?thesis .
qed

lemma sum_list_of_nat:
  "sum_list (map (\<lambda>t. rat_of_nat (f t)) xs) = of_nat (sum_list (map f xs))"
  by (induction xs) simp_all

lemma sum_over_output:
  fixes f :: "jsstring \<Rightarrow> rat"
  shows "sum_list (map f (map tg_team (teamGoals data))) = sum_list (map f (encounter_order data))"
proof -
  have "mset (map f (map tg_team (teamGoals data))) = mset (map f (encounter_order data))"
    using mset_teamGoals_teams [of data] by (metis mset_map)
  then show ?thesis by (metis sum_mset_sum_list)
qed

text \<open>
  Claim C1, amended. Summed over the teams of the output, the accumulated goals (the
  number that \<open>goalsPerMatch\<close> divides by the team's match count) give the total of the
  goals of the data set, once; it is the match counts that sum to twice the number of
  matches. Both sums are sums of integers. The product of a rate with its match count
  is not part of the statement: the rate is a quotient, and only its two operands are
  spoken of here.
\<close>

theorem team_goals_sum_is_total_goals:
  "js_sum (map (\<lambda>e. accumulated_goals data (tg_team e)) (teamGoals data)) = total_goals data
   \<and> js_sum (map (\<lambda>e. matchesPlayed data (tg_team e)) (teamGoals data))
       = Fin (2 * of_nat (length data))
   \<and> list_all (\<lambda>e. tg_goalsPerMatch e
                     = js_div (accumulated_goals data (tg_team e)) (matchesPlayed data (tg_team e)))
       (teamGoals data)"
proof -
  have g: "map (\<lambda>e. accumulated_goals data (tg_team e)) (teamGoals data)
             = map Fin (map (goals_for data) (map tg_team (teamGoals data)))"
    using teamGoals_entry [of _ data] by (simp add: accumulated_goals_Fin)
  have p: "map (\<lambda>e. matchesPlayed data (tg_team e)) (teamGoals data)
             = map Fin (map (\<lambda>t. of_nat (appearances data t)) (map tg_team (teamGoals data)))"
    using teamGoals_entry [of _ data] by (simp add: matchesPlayed_Fin)
  have one: "js_sum (map (\<lambda>e. accumulated_goals data (tg_team e)) (teamGoals data))
               = total_goals data"
    unfolding g js_sum_Fin sum_over_output total_goals_Fin sum_goals_all_teams ..
  have "sum_list (map (\<lambda>t. rat_of_nat (appearances data t)) (encounter_order data))
          = of_nat (\<Sum>t\<leftarrow>encounter_order data. appearances data t)"
    by (rule sum_list_of_nat)
  then have "sum_list (map (\<lambda>t. rat_of_nat (appearances data t)) (encounter_order data))
          = 2 * of_nat (length data)"
    unfolding sum_appearances_all_teams by simp
  then have two: "js_sum (map (\<lambda>e. matchesPlayed data (tg_team e)) (teamGoals data))
       = Fin (2 * of_nat (length data))"
    unfolding p js_sum_Fin sum_over_output by simp
  have three: "list_all (\<lambda>e. tg_goalsPerMatch e
                     = js_div (accumulated_goals data (tg_team e)) (matchesPlayed data (tg_team e)))
       (teamGoals data)"
    unfolding list_all_iff
  proof
    fix e assume e: "e \<in> set (teamGoals data)"
    have r: "e = rate_entry data (tg_team e)" and t: "tg_team e \<in> set (encounter_order data)"
      using teamGoals_entry [OF e] by blast+
    have q: "tg_goalsPerMatch e
               = Fin (goals_for data (tg_team e) / of_nat (appearances data (tg_team e)))"
      by (subst r) (simp add: rate_entry_def rate_def)
    show "tg_goalsPerMatch e
            = js_div (accumulated_goals data (tg_team e)) (matchesPlayed data (tg_team e))"
      unfolding q accumulated_goals_Fin [OF t] matchesPlayed_Fin [OF t]
      using appearances_pos [OF t] by simp
  qed
  from one two three show ?thesis by blast
qed

section \<open>The tracker against its specification\<close>

lemma matchPoints_spec: "matchPoints t m = Fin (spec_points t m)"
  unfolding matchPoints_def spec_points_def Let_def homeGoals_fin awayGoals_fin
  by (auto simp: js_gt_def js_eq_def)

lemma ppg_points_running:
  "0 \<le> n \<Longrightarrow>
   map ppg (ppg_points t (Fin p) (Fin n) ms) = map Fin (running_ppg p n (map (spec_points t) ms))"
proof (induction ms arbitrary: p n)
  case Nil
  then show ?case by simp
next
  case (Cons m ms)
  have n1: "n + 1 \<noteq> 0" "0 \<le> n + 1" using Cons.prems by simp_all
  show ?case
    using Cons.IH [OF n1(2), of "p + spec_points t m"] n1(1)
    by (simp add: Let_def matchPoints_spec)
qed

lemma ppg_points_nth:
  "0 \<le> n \<Longrightarrow> i < length ms \<Longrightarrow>
   points (ppg_points t (Fin p) (Fin n) ms ! i)
     = Fin (p + sum_list (take (Suc i) (map (spec_points t) ms)))
   \<and> matches (ppg_points t (Fin p) (Fin n) ms ! i) = Fin (n + of_nat (Suc i))
   \<and> ppg (ppg_points t (Fin p) (Fin n) ms ! i)
       = Fin ((p + sum_list (take (Suc i) (map (spec_points t) ms))) / (n + of_nat (Suc i)))"
proof (induction ms arbitrary: p n i)
  case Nil
  then show ?case by simp
next
  case (Cons m ms)
  have n1: "n + 1 \<noteq> 0" "0 \<le> n + 1" using Cons.prems by simp_all
  show ?case
  proof (cases i)
    case 0
    then show ?thesis using n1 by (simp add: Let_def matchPoints_spec)
  next
    case (Suc j)
    then have j: "j < length ms" using Cons.prems by simp
    show ?thesis
      using Cons.IH [OF n1(2) j, of "p + spec_points t m"]
      by (simp add: Suc Let_def matchPoints_spec add.assoc add.commute add.left_commute)
  qed
qed

lemma map_date_ppg_points: "map date (ppg_points t pts cnt ms) = map Date ms"
  by (induction ms arbitrary: pts cnt) (auto simp: Let_def)

lemma date_cmp_key:
  assumes "\<forall>d\<in>set xs. \<exists>x. getTime (Date d) = Fin x"
  shows "\<forall>x\<in>set xs. \<forall>y\<in>set xs.
           js_gt (date_cmp getTime x y) (Fin 0)
             \<longleftrightarrow> fin_val (getTime (Date y)) < fin_val (getTime (Date x))"
proof (intro ballI)
  fix x y
  assume "x \<in> set xs" "y \<in> set xs"
  then obtain a b where "getTime (Date x) = Fin a" "getTime (Date y) = Fin b"
    using assms by metis
  then show "js_gt (date_cmp getTime x y) (Fin 0)
             \<longleftrightarrow> fin_val (getTime (Date y)) < fin_val (getTime (Date x))"
    by (simp add: date_cmp_def js_gt_sub)
qed

lemma teamMatches_spec:
  assumes "\<forall>d\<in>set data. \<exists>x. getTime (Date d) = Fin x"
  shows "teamMatches getTime data t = spec_fixtures getTime data t"
proof -
  have "\<forall>d\<in>set (fixtures data t). \<exists>x. getTime (Date d) = Fin x"
    using assms by (simp add: fixtures_def)
  from js_sort_sort_key [OF date_cmp_key [OF this]]
  show ?thesis
    by (simp add: teamMatches_def spec_fixtures_def fixtures_def)
qed

text \<open>
  Claim C4. For a team name that is not empty and data whose dates are all valid, the
  primary series visits the team's fixtures in ascending order of date
  (\<open>spec_fixtures\<close>), and its points-per-game values are those of the left fold of the
  specification (\<open>ppg_spec\<close>): after the match of index \<open>i\<close> the running points are the
  sum of the first \<open>i + 1\<close> match points (3, 1 or 0 from the team's side), the running
  count is \<open>i + 1\<close>, and the value emitted is their quotient. A team whose results in
  order of date are win, draw, loss gets \<open>3\<close>, \<open>2\<close>, \<open>4/3\<close>.
\<close>

theorem ppg_running_average:
  assumes "selectedTeam \<noteq> []" and "\<forall>d\<in>set data. \<exists>x. getTime (Date d) = Fin x"
  shows "map date (primaryTeam (ppgTimeseriesData getTime data selectedTeam cmpTeam))
           = map Date (spec_fixtures getTime data selectedTeam)
         \<and> sorted_wrt (\<lambda>a b. js_le (getTime (date a)) (getTime (date b)))
             (primaryTeam (ppgTimeseriesData getTime data selectedTeam cmpTeam))
         \<and> mset (spec_fixtures getTime data selectedTeam) = mset (fixtures data selectedTeam)
         \<and> map ppg (primaryTeam (ppgTimeseriesData getTime data selectedTeam cmpTeam))
             = map Fin (ppg_spec getTime data selectedTeam)
         \<and> (i < length (spec_fixtures getTime data selectedTeam) \<longrightarrow>
              points (primaryTeam (ppgTimeseriesData getTime data selectedTeam cmpTeam) ! i)
                = Fin (sum_list (take (Suc i)
                         (map (spec_points selectedTeam) (spec_fixtures getTime data selectedTeam))))
              \<and> matches (primaryTeam (ppgTimeseriesData getTime data selectedTeam cmpTeam) ! i)
                  = Fin (of_nat (Suc i))
              \<and> ppg (primaryTeam (ppgTimeseriesData getTime data selectedTeam cmpTeam) ! i)
                  = Fin (sum_list (take (Suc i)
                           (map (spec_points selectedTeam) (spec_fixtures getTime data selectedTeam)))
                         / of_nat (Suc i)))
         \<and> (map (spec_points selectedTeam) (spec_fixtures getTime data selectedTeam) = [3, 1, 0] \<longrightarrow>
              map ppg (primaryTeam (ppgTimeseriesData getTime data selectedTeam cmpTeam))
                = [Fin 3, Fin 2, Fin (4 / 3)])"
proof -
  let ?fx = "spec_fixtures getTime data selectedTeam"
  have prim: "primaryTeam (ppgTimeseriesData getTime data selectedTeam cmpTeam)
                = ppg_points selectedTeam (Fin 0) (Fin 0) ?fx"
    using assms(1)
    by (simp add: ppgTimeseriesData_def Let_def team_series_def teamMatches_spec [OF assms(2)])
  have dates: "map date (ppg_points selectedTeam (Fin 0) (Fin 0) ?fx) = map Date ?fx"
    by (rule map_date_ppg_points)
  have run: "map ppg (ppg_points selectedTeam (Fin 0) (Fin 0) ?fx)
               = map Fin (ppg_spec getTime data selectedTeam)"
    unfolding ppg_spec_def by (rule ppg_points_running) simp
  have nth: "points (ppg_points selectedTeam (Fin 0) (Fin 0) ?fx ! i)
                = Fin (sum_list (take (Suc i) (map (spec_points selectedTeam) ?fx)))
              \<and> matches (ppg_points selectedTeam (Fin 0) (Fin 0) ?fx ! i) = Fin (of_nat (Suc i))
              \<and> ppg (ppg_points selectedTeam (Fin 0) (Fin 0) ?fx ! i)
                  = Fin (sum_list (take (Suc i) (map (spec_points selectedTeam) ?fx))
                         / of_nat (Suc i))"
    if "i < length ?fx"
    using ppg_points_nth [of 0 i ?fx selectedTeam 0] that by simp
  have wdl: "map ppg (ppg_points selectedTeam (Fin 0) (Fin 0) ?fx) = [Fin 3, Fin 2, Fin (4 / 3)]"
    if "map (spec_points selectedTeam) ?fx = [3, 1, 0]"
    unfolding run ppg_spec_def that by simp
  have "sorted (map (\<lambda>m. fin_val (getTime (Date m))) ?fx)"
    unfolding spec_fixtures_def by (rule sorted_sort_key)
  moreover have "\<forall>m\<in>set ?fx. getTime (Date m) = Fin (fin_val (getTime (Date m)))"
    using assms(2) by (auto simp: spec_fixtures_def fixtures_def)
  ultimately have "sorted_wrt (\<lambda>a b. js_le (getTime (Date a)) (getTime (Date b))) ?fx"
    by (rule sorted_key_js_le)
  then have "sorted_wrt (\<lambda>a b. js_le (getTime a) (getTime b)) (map Date ?fx)"
    by (simp add: sorted_wrt_map)
  then have "sorted_wrt (\<lambda>a b. js_le (getTime a) (getTime b))
               (map date (ppg_points selectedTeam (Fin 0) (Fin 0) ?fx))"
    by (simp only: dates)
  then have srt: "sorted_wrt (\<lambda>a b. js_le (getTime (date a)) (getTime (date b)))
               (ppg_points selectedTeam (Fin 0) (Fin 0) ?fx)"
    by (simp add: sorted_wrt_map)
  have ms: "mset ?fx = mset (fixtures data selectedTeam)"
    by (simp add: spec_fixtures_def)
  show ?thesis
    unfolding prim using dates srt ms run nth wdl by blast
qed

section \<open>Worked examples\<close>

lemma sample_league_times:
  "map (\<lambda>d. sample_getTime (Date d)) sample_league
     = map Fin [20240824, 20240816, 20240817, 20240817]"
  by code_simp

lemma sample_league_valid: "\<forall>d\<in>set sample_league. \<exists>x. sample_getTime (Date d) = Fin x"
proof
  fix d assume "d \<in> set sample_league"
  then have "sample_getTime (Date d) \<in> set (map (\<lambda>d. sample_getTime (Date d)) sample_league)"
    by simp
  then show "\<exists>x. sample_getTime (Date d) = Fin x"
    unfolding sample_league_times by auto
qed

theorem ppg_running_average_witness:
  "map ppg (primaryTeam (ppgTimeseriesData sample_getTime sample_league (ascii ''A'') []))
     = [Fin 3, Fin 2, Fin (4 / 3)]
   \<and> map date (primaryTeam (ppgTimeseriesData sample_getTime sample_league (ascii ''A'') []))
       = [ascii ''2024-08-16'', ascii ''2024-08-17'', ascii ''2024-08-24'']
   \<and> points (primaryTeam (ppgTimeseriesData sample_getTime sample_league (ascii ''A'') []) ! 2)
       = Fin 4
   \<and> matches (primaryTeam (ppgTimeseriesData sample_getTime sample_league (ascii ''A'') []) ! 2)
       = Fin 3"
proof -
  have s: "ascii ''A'' \<noteq> []" by (simp add: ascii_def)
  have f: "map (spec_points (ascii ''A'')) (spec_fixtures sample_getTime sample_league (ascii ''A''))
             = [3, 1, 0]"
    by code_simp
  have d: "map Date (spec_fixtures sample_getTime sample_league (ascii ''A''))
             = [ascii ''2024-08-16'', ascii ''2024-08-17'', ascii ''2024-08-24'']"
    by code_simp
  have "length (map Date (spec_fixtures sample_getTime sample_league (ascii ''A''))) = 3"
    unfolding d by simp
  then have l: "2 < length (spec_fixtures sample_getTime sample_league (ascii ''A''))"
    by simp
  have t: "sum_list (take (Suc 2) [3, 1, 0 :: rat]) = 4" "rat_of_nat (Suc 2) = 3"
    by simp_all
  note r = ppg_running_average [OF s sample_league_valid, of "[]" 2, unfolded f d t]
  from r l show ?thesis by blast
qed

text \<open>
  Claim C1 as stated fails: for the single match \<open>A 1-0 B\<close> the sum of rate times
  appearances is \<open>1\<close>, and twice the total goals is \<open>2\<close>.
\<close>

theorem rate_sum_not_twice_total:
  "weighted_rate_sum [sample_match ''2024-08-16'' ''A'' ''B'' (score_text ''1'' ''0'') 1 1] = Fin 1
   \<and> js_mul (Fin 2)
        (total_goals [sample_match ''2024-08-16'' ''A'' ''B'' (score_text ''1'' ''0'') 1 1]) = Fin 2
   \<and> weighted_rate_sum [sample_match ''2024-08-16'' ''A'' ''B'' (score_text ''1'' ''0'') 1 1]
       \<noteq> js_mul (Fin 2)
            (total_goals [sample_match ''2024-08-16'' ''A'' ''B'' (score_text ''1'' ''0'') 1 1])"
proof -
  have a: "weighted_rate_sum [sample_match ''2024-08-16'' ''A'' ''B'' (score_text ''1'' ''0'') 1 1]
             = Fin 1"
    by code_simp
  have b: "js_mul (Fin 2)
        (total_goals [sample_match ''2024-08-16'' ''A'' ''B'' (score_text ''1'' ''0'') 1 1]) = Fin 2"
    by code_simp
  show ?thesis unfolding a b by simp
qed

theorem team_goals_sum_is_total_goals_witness:
  "js_sum (map (\<lambda>e. accumulated_goals sample_league (tg_team e)) (teamGoals sample_league)) = Fin 10
   \<and> total_goals sample_league = Fin 10
   \<and> js_sum (map (\<lambda>e. matchesPlayed sample_league (tg_team e)) (teamGoals sample_league)) = Fin 8
   \<and> map (\<lambda>e. accumulated_goals sample_league (tg_team e)) (teamGoals sample_league)
       = [Fin 2, Fin 4, Fin 2, Fin 2]"
proof -
  have t: "total_goals sample_league = Fin 10" by code_simp
  have l: "length sample_league = 4" by (simp add: sample_league_def)
  have a: "map (\<lambda>e. accumulated_goals sample_league (tg_team e)) (teamGoals sample_league)
       = [Fin 2, Fin 4, Fin 2, Fin 2]"
    by code_simp
  show ?thesis
    using team_goals_sum_is_total_goals [of sample_league] t l a by simp
qed

theorem teamGoals_sorted_by_rate_witness:
  "distinct (map tg_team (teamGoals sample_league))
   \<and> list_all (\<lambda>e. tg_goalsPerMatch e
                     = Fin (goals_for sample_league (tg_team e)
                            / of_nat (appearances sample_league (tg_team e))))
       (teamGoals sample_league)
   \<and> map tg_team (filter (\<lambda>e. tg_goalsPerMatch e = Fin 1) (teamGoals sample_league))
       = [ascii ''B'', ascii ''C'']
   \<and> teamGoals sample_league
       = [\<lparr>tg_team = ascii ''D'', tg_goalsPerMatch = Fin 2\<rparr>,
          \<lparr>tg_team = ascii ''A'', tg_goalsPerMatch = Fin (4 / 3)\<rparr>,
          \<lparr>tg_team = ascii ''B'', tg_goalsPerMatch = Fin 1\<rparr>,
          \<lparr>tg_team = ascii ''C'', tg_goalsPerMatch = Fin 1\<rparr>]"
proof -
  have tie: "filter (\<lambda>t. rate sample_league t = Fin 1) (encounter_order sample_league)
               = [ascii ''B'', ascii ''C'']"
    by code_simp
  have out: "teamGoals sample_league
       = [\<lparr>tg_team = ascii ''D'', tg_goalsPerMatch = Fin 2\<rparr>,
          \<lparr>tg_team = ascii ''A'', tg_goalsPerMatch = Fin (4 / 3)\<rparr>,
          \<lparr>tg_team = ascii ''B'', tg_goalsPerMatch = Fin 1\<rparr>,
          \<lparr>tg_team = ascii ''C'', tg_goalsPerMatch = Fin 1\<rparr>]"
    by code_simp
  have all: "list_all (\<lambda>e. tg_goalsPerMatch e
                     = Fin (goals_for sample_league (tg_team e)
                            / of_nat (appearances sample_league (tg_team e))))
       (teamGoals sample_league)"
    using teamGoals_sorted_by_rate [of sample_league "Fin 1"] by (simp add: list_all_iff)
  show ?thesis
    using teamGoals_sorted_by_rate [of sample_league "Fin 1"] tie out all by simp
qed

theorem xg_all_matches_sorted_witness:
  "sorted_wrt (\<lambda>a b. js_le (sample_getTime (xp_date a)) (sample_getTime (xp_date b)))
     (timeseriesData sample_getTime sample_league [])
   \<and> map xp_team (filter (\<lambda>p. sample_getTime (xp_date p) = Fin 20240817)
                     (timeseriesData sample_getTime sample_league []))
       = [ascii ''D'', ascii ''B'']
   \<and> map xp_team (timeseriesData sample_getTime sample_league [])
       = [ascii ''A'', ascii ''D'', ascii ''B'', ascii ''A'']
   \<and> map xp_opponent (timeseriesData sample_getTime sample_league [])
       = [ascii ''C'', ascii ''A'', ascii ''C'', ascii ''B'']"
proof -
  have tie: "map xp_team (map home_point
               (filter (\<lambda>d. sample_getTime (Date d) = Fin 20240817) sample_league))
             = [ascii ''D'', ascii ''B'']"
    by code_simp
  have t: "map xp_team (timeseriesData sample_getTime sample_league [])
       = [ascii ''A'', ascii ''D'', ascii ''B'', ascii ''A'']"
    by code_simp
  have o: "map xp_opponent (timeseriesData sample_getTime sample_league [])
       = [ascii ''C'', ascii ''A'', ascii ''C'', ascii ''B'']"
    by code_simp
  show ?thesis
    using xg_all_matches_sorted [of sample_getTime sample_league "Fin 20240817"]
      sample_league_valid tie t o
    by simp
qed

theorem ppg_monotone_bounded_witness:
  "ppg_series_ok (primaryTeam (ppgTimeseriesData sample_getTime sample_league (ascii ''A'') (ascii ''C'')))
   \<and> ppg_series_ok (compareTeam (ppgTimeseriesData sample_getTime sample_league (ascii ''A'') (ascii ''C'')))
   \<and> length (primaryTeam (ppgTimeseriesData sample_getTime sample_league (ascii ''A'') (ascii ''C''))) = 3
   \<and> length (compareTeam (ppgTimeseriesData sample_getTime sample_league (ascii ''A'') (ascii ''C''))) = 2
   \<and> map points (primaryTeam (ppgTimeseriesData sample_getTime sample_league (ascii ''A'') (ascii ''C'')))
       = [Fin 3, Fin 4, Fin 4]"
proof -
  have a: "length (fixtures sample_league (ascii ''A'')) = 3" by code_simp
  have c: "length (fixtures sample_league (ascii ''C'')) = 2" by code_simp
  have n: "ascii ''A'' \<noteq> []" "ascii ''C'' \<noteq> []" by (simp_all add: ascii_def)
  have p: "map points (primaryTeam (ppgTimeseriesData sample_getTime sample_league (ascii ''A'') (ascii ''C'')))
       = [Fin 3, Fin 4, Fin 4]"
    by code_simp
  show ?thesis
    using ppg_monotone_bounded [of sample_getTime sample_league "ascii ''A''" "ascii ''C''"] a c n p
    by simp
qed

end
